theory Spec2Isabelle
  imports Complex_Main "HOL-Library.Multiset" "HOL-Library.Char_ord"
    "HOL-Library.List_Lexorder" "HOL-Library.Product_Lexorder"
begin

section \<open>Package drift: threshold configuration\<close>

text \<open>
  Go's \<open>float64\<close> threshold fields are only ever compared with constants and with each
  other.  A value is a finite number, an infinity or NaN; the finite values are kept as
  rationals.  Comparisons with NaN are false, as in IEEE 754.
\<close>

datatype float64 = Fin rat | PosInf | NegInf | NaN

fun f64_lt :: "float64 \<Rightarrow> float64 \<Rightarrow> bool" where
  "f64_lt NaN _ = False"
| "f64_lt _ NaN = False"
| "f64_lt (Fin a) (Fin b) = (a < b)"
| "f64_lt NegInf NegInf = False"
| "f64_lt NegInf _ = True"
| "f64_lt _ NegInf = False"
| "f64_lt PosInf _ = False"
| "f64_lt (Fin _) PosInf = True"

definition f64_gt :: "float64 \<Rightarrow> float64 \<Rightarrow> bool" where
  "f64_gt a b = f64_lt b a"

record Config =
  DensityWarningPct :: float64
  DensityInfoPct :: float64
  NodeGrowthInfoPct :: float64
  EdgeGrowthInfoPct :: float64
  BlockedIncreaseThreshold :: int
  ActionableDecreaseWarningPct :: float64
  ActionableIncreaseInfoPct :: float64
  PageRankChangeWarningPct :: float64

definition DefaultConfig :: Config where
  "DefaultConfig = \<lparr>
     DensityWarningPct = Fin 50,
     DensityInfoPct = Fin 20,
     NodeGrowthInfoPct = Fin 25,
     EdgeGrowthInfoPct = Fin 25,
     BlockedIncreaseThreshold = 5,
     ActionableDecreaseWarningPct = Fin 30,
     ActionableIncreaseInfoPct = Fin 20,
     PageRankChangeWarningPct = Fin 50 \<rparr>"

text \<open>\<open>Validate\<close> returns \<open>None\<close> for Go's \<open>nil\<close> and the message of the error otherwise.\<close>

definition Validate :: "Config \<Rightarrow> string option" where
  "Validate c =
    (if f64_lt (DensityWarningPct c) (Fin 0) \<or> f64_gt (DensityWarningPct c) (Fin 1000)
       then Some ''density_warning_pct must be between 0 and 1000''
     else if f64_lt (DensityInfoPct c) (Fin 0) \<or> f64_gt (DensityInfoPct c) (DensityWarningPct c)
       then Some ''density_info_pct must be between 0 and density_warning_pct''
     else if f64_lt (NodeGrowthInfoPct c) (Fin 0) \<or> f64_gt (NodeGrowthInfoPct c) (Fin 1000)
       then Some ''node_growth_info_pct must be between 0 and 1000''
     else if f64_lt (EdgeGrowthInfoPct c) (Fin 0) \<or> f64_gt (EdgeGrowthInfoPct c) (Fin 1000)
       then Some ''edge_growth_info_pct must be between 0 and 1000''
     else if BlockedIncreaseThreshold c < 0
       then Some ''blocked_increase_threshold must be non-negative''
     else if f64_lt (ActionableDecreaseWarningPct c) (Fin 0)
           \<or> f64_gt (ActionableDecreaseWarningPct c) (Fin 100)
       then Some ''actionable_decrease_warning_pct must be between 0 and 100''
     else if f64_lt (ActionableIncreaseInfoPct c) (Fin 0)
           \<or> f64_gt (ActionableIncreaseInfoPct c) (Fin 1000)
       then Some ''actionable_increase_info_pct must be between 0 and 1000''
     else if f64_lt (PageRankChangeWarningPct c) (Fin 0)
           \<or> f64_gt (PageRankChangeWarningPct c) (Fin 1000)
       then Some ''pagerank_change_warning_pct must be between 0 and 1000''
     else None)"

text \<open>
  The file system and the YAML decoder are outside the package: \<open>filepath.Join\<close> builds a
  path from its elements, \<open>os.ReadFile\<close> yields the
  file's bytes, a not-exist error or another error; \<open>yaml.Unmarshal\<close> fills the fields it
  finds into the configuration it is given, or fails.
\<close>

datatype read_result = FileData string | ErrNotExist | ErrOther string

record drift_env =
  Join :: "string list \<Rightarrow> string"
  ReadFile :: "string \<Rightarrow> read_result"
  Unmarshal :: "string \<Rightarrow> Config \<Rightarrow> string + Config"

datatype load_error =
    ReadingDriftConfig string
  | ParsingDriftConfig string
  | InvalidDriftConfig string

definition ConfigFilename :: string where
  "ConfigFilename = ''drift.yaml''"

definition ConfigPath :: "drift_env \<Rightarrow> string \<Rightarrow> string" where
  "ConfigPath env projectDir = Join env [projectDir, ''.bv'', ConfigFilename]"

definition LoadConfig :: "drift_env \<Rightarrow> string \<Rightarrow> load_error + Config" where
  "LoadConfig env projectDir =
    (case ReadFile env (ConfigPath env projectDir) of
       ErrNotExist \<Rightarrow> Inr DefaultConfig
     | ErrOther e \<Rightarrow> Inl (ReadingDriftConfig e)
     | FileData data \<Rightarrow>
        (case Unmarshal env data DefaultConfig of
           Inl e \<Rightarrow> Inl (ParsingDriftConfig e)
         | Inr config \<Rightarrow>
            (case Validate config of
               Some e \<Rightarrow> Inl (InvalidDriftConfig e)
             | None \<Rightarrow> Inr config)))"

section \<open>Package ui: truncating a string by runes\<close>

text \<open>
  A Go string is a sequence of bytes (\<open>char\<close> is a byte).  The conversion \<open>[]rune(s)\<close>
  decodes it as UTF-8, one rune per well-formed sequence and U+FFFD for every byte that
  starts none; \<open>string(runes)\<close> encodes each rune back, U+FFFD for a value that is no
  Unicode scalar.
\<close>

definition RuneError :: nat where
  "RuneError = 0xFFFD"

definition cont :: "nat \<Rightarrow> bool" where
  "cont b = (0x80 \<le> b \<and> b \<le> 0xBF)"

text \<open>The range accepted for the second byte, by first byte.\<close>

definition lo2 :: "nat \<Rightarrow> nat" where
  "lo2 b0 = (if b0 = 0xE0 then 0xA0 else if b0 = 0xF0 then 0x90 else 0x80)"

definition hi2 :: "nat \<Rightarrow> nat" where
  "hi2 b0 = (if b0 = 0xED then 0x9F else if b0 = 0xF4 then 0x8F else 0xBF)"

fun DecodeRune :: "nat list \<Rightarrow> nat \<times> nat" where
  "DecodeRune [] = (RuneError, 0)"
| "DecodeRune (b0 # bs) =
    (if b0 < 0x80 then (b0, 1)
     else if 0xC2 \<le> b0 \<and> b0 \<le> 0xDF then
       (case bs of
          b1 # _ \<Rightarrow>
            if cont b1 then ((b0 - 0xC0) * 64 + (b1 - 0x80), 2) else (RuneError, 1)
        | _ \<Rightarrow> (RuneError, 1))
     else if 0xE0 \<le> b0 \<and> b0 \<le> 0xEF then
       (case bs of
          b1 # b2 # _ \<Rightarrow>
            if lo2 b0 \<le> b1 \<and> b1 \<le> hi2 b0 \<and> cont b2
            then ((b0 - 0xE0) * 4096 + (b1 - 0x80) * 64 + (b2 - 0x80), 3)
            else (RuneError, 1)
        | _ \<Rightarrow> (RuneError, 1))
     else if 0xF0 \<le> b0 \<and> b0 \<le> 0xF4 then
       (case bs of
          b1 # b2 # b3 # _ \<Rightarrow>
            if lo2 b0 \<le> b1 \<and> b1 \<le> hi2 b0 \<and> cont b2 \<and> cont b3
            then ((b0 - 0xF0) * 262144 + (b1 - 0x80) * 4096 + (b2 - 0x80) * 64 + (b3 - 0x80), 4)
            else (RuneError, 1)
        | _ \<Rightarrow> (RuneError, 1))
     else (RuneError, 1))"

fun decode_runes :: "nat list \<Rightarrow> nat list" where
  "decode_runes [] = []"
| "decode_runes (b0 # bs) =
    (case DecodeRune (b0 # bs) of (r, w) \<Rightarrow> r # decode_runes (drop (w - 1) bs))"

definition ValidRune :: "nat \<Rightarrow> bool" where
  "ValidRune r = (r < 0xD800 \<or> (0xDFFF < r \<and> r \<le> 0x10FFFF))"

definition EncodeRune :: "nat \<Rightarrow> nat list" where
  "EncodeRune r =
    (if r < 0x80 then [r]
     else if r < 0x800 then [0xC0 + r div 64, 0x80 + r mod 64]
     else if \<not> ValidRune r then [0xEF, 0xBF, 0xBD]
     else if r < 0x10000 then [0xE0 + r div 4096, 0x80 + (r div 64) mod 64, 0x80 + r mod 64]
     else [0xF0 + r div 262144, 0x80 + (r div 4096) mod 64,
           0x80 + (r div 64) mod 64, 0x80 + r mod 64])"

definition encode_runes :: "nat list \<Rightarrow> nat list" where
  "encode_runes rs = concat (map EncodeRune rs)"

definition runes_of :: "string \<Rightarrow> nat list" where
  "runes_of s = decode_runes (map of_char s)"

definition string_of :: "nat list \<Rightarrow> string" where
  "string_of rs = map char_of (encode_runes rs)"

text \<open>The ellipsis U+2026, the three bytes E2 80 A6.\<close>

definition ellipsis :: string where
  "ellipsis = [char_of (0xE2::nat), char_of (0x80::nat), char_of (0xA6::nat)]"

definition truncateString :: "string \<Rightarrow> int \<Rightarrow> string" where
  "truncateString s maxLen =
    (if maxLen \<le> 0 then ''''
     else let runes = runes_of s in
       if int (length runes) \<le> maxLen then s
       else if maxLen \<le> 3 then string_of (take (nat maxLen) runes)
       else string_of (take (nat (maxLen - 1)) runes) @ ellipsis)"

text \<open>A string with a two-byte character: \<open>h\<close>, \<open>e\<close> with an acute accent, \<open>llo\<close>.\<close>

definition hello :: string where
  "hello = map char_of [0x68, 0xC3, 0xA9, 0x6C, 0x6C, 0x6F :: nat]"

section \<open>Package model: issues and dependencies\<close>

text \<open>
  Modelled from the spec: package \<open>model\<close> (the declarations of \<open>Issue\<close>,
  \<open>Dependency\<close>, \<open>Status\<close> and \<open>DependencyType\<close>) is not among the sources; the
  fields are the ones the sources read.  A status and an edge kind are strings in Go, so
  each type has a constructor for the values without a name of their own.  An entry of
  \<open>Dependencies\<close> or of \<open>Comments\<close> is a pointer: \<open>None\<close> is \<open>nil\<close>.
\<close>

datatype Status = StatusOpen | StatusInProgress | StatusBlocked | StatusClosed | StatusOther string

datatype DependencyType = DepBlocks | DepRelated | DepOther string

record Dependency =
  IssueID :: string
  DependsOnID :: string
  Type :: DependencyType

record Comment =
  Author :: string
  Text :: string
  Comment_CreatedAt :: int

record Issue =
  ID :: string
  Title :: string
  Status :: Status
  Priority :: int
  CreatedAt :: int
  UpdatedAt :: int
  Labels :: "string list"
  Dependencies :: "Dependency option list"
  Comments :: "Comment option list"

section \<open>Package analysis: the graph and its metrics\<close>

text \<open>
  Modelled from the spec: package \<open>analysis\<close> is not among the sources.  The graph has
  the issue ids as nodes and the validated dependencies as edges: a \<open>nil\<close> entry is
  skipped and an edge is kept when both endpoints are ids of the issue set.
\<close>

definition nodes :: "Issue list \<Rightarrow> string list" where
  "nodes issues = remdups (map ID issues)"

definition all_deps :: "Issue list \<Rightarrow> Dependency list" where
  "all_deps issues = concat (map (\<lambda>i. List.map_filter (\<lambda>d. d) (Dependencies i)) issues)"

definition validated :: "Issue list \<Rightarrow> Dependency list" where
  "validated issues =
     filter (\<lambda>d. IssueID d \<in> set (nodes issues) \<and> DependsOnID d \<in> set (nodes issues))
       (all_deps issues)"

text \<open>
  Modelled from the spec: every validated dependency is an edge of the graph, from the
  issue that holds it to the issue it depends on.
\<close>

definition edges :: "Issue list \<Rightarrow> (string \<times> string) list" where
  "edges issues = map (\<lambda>d. (IssueID d, DependsOnID d)) (validated issues)"

text \<open>
  Modelled from the spec: only \<open>blocks\<close> edges take part in the critical path.  The
  pair \<open>(a, b)\<close> says that \<open>a\<close> blocks \<open>b\<close>, that is, \<open>b\<close> holds a blocking
  dependency on \<open>a\<close>.
\<close>

definition blocks_edges :: "Issue list \<Rightarrow> (string \<times> string) list" where
  "blocks_edges issues =
     map (\<lambda>d. (DependsOnID d, IssueID d)) (filter (\<lambda>d. Type d = DepBlocks) (validated issues))"

definition succs :: "(string \<times> string) list \<Rightarrow> string \<Rightarrow> string list" where
  "succs es u = map snd (filter (\<lambda>e. fst e = u) es)"

subsection \<open>Critical path\<close>

text \<open>
  Modelled from the spec: the height of a node is the longest chain of \<open>blocks\<close> edges
  below it, computed from the leaves upwards: a round gives a height to every node whose
  successors all have one.  A node in a cycle, or above one, never gets a height; it keeps
  the sentinel \<open>-1\<close>, sets \<open>HasCycle\<close> and stays out of the longest-path report.
\<close>

definition known :: "(string \<rightharpoonup> nat) \<Rightarrow> string \<Rightarrow> bool" where
  "known h v = (h v \<noteq> None)"

definition ready :: "(string \<times> string) list \<Rightarrow> (string \<rightharpoonup> nat) \<Rightarrow> string \<Rightarrow> bool" where
  "ready es h v = (\<not> known h v \<and> list_all (known h) (succs es v))"

definition height_of :: "(string \<rightharpoonup> nat) \<Rightarrow> string \<Rightarrow> nat" where
  "height_of h v = (case h v of Some x \<Rightarrow> x | None \<Rightarrow> 0)"

definition new_height :: "(string \<times> string) list \<Rightarrow> (string \<rightharpoonup> nat) \<Rightarrow> string \<Rightarrow> nat" where
  "new_height es h v = fold (\<lambda>s m. max m (Suc (height_of h s))) (succs es v) 0"

definition height_round ::
  "(string \<times> string) list \<Rightarrow> string list \<Rightarrow> (string \<rightharpoonup> nat) \<Rightarrow> (string \<rightharpoonup> nat)" where
  "height_round es vs h =
     (\<lambda>v. if v \<in> set vs \<and> ready es h v then Some (new_height es h v) else h v)"

fun height_rounds ::
  "nat \<Rightarrow> (string \<times> string) list \<Rightarrow> string list \<Rightarrow> (string \<rightharpoonup> nat) \<Rightarrow> (string \<rightharpoonup> nat)" where
  "height_rounds 0 es vs h = h"
| "height_rounds (Suc k) es vs h = height_rounds k es vs (height_round es vs h)"

definition heights :: "Issue list \<Rightarrow> (string \<rightharpoonup> nat)" where
  "heights issues =
     height_rounds (length (nodes issues)) (blocks_edges issues) (nodes issues) Map.empty"

definition sentinel :: int where
  "sentinel = -1"

definition CriticalPathHeight :: "Issue list \<Rightarrow> string \<Rightarrow> int" where
  "CriticalPathHeight issues v =
     (case heights issues v of Some x \<Rightarrow> int x | None \<Rightarrow> sentinel)"

definition HasCycle :: "Issue list \<Rightarrow> bool" where
  "HasCycle issues = (\<exists>v \<in> set (nodes issues). heights issues v = None)"

definition LongestPathReport :: "Issue list \<Rightarrow> (string \<times> int) list" where
  "LongestPathReport issues =
     filter (\<lambda>(v, x). x \<noteq> sentinel)
       (map (\<lambda>v. (v, CriticalPathHeight issues v)) (nodes issues))"

subsection \<open>Cycle detection\<close>

text \<open>
  Modelled from the spec: the strongly connected components of the graph; a component
  with more than one node, or a node with an edge to itself, is a cycle.  The components
  are found from the sets of reachable nodes.
\<close>

definition frontier :: "(string \<times> string) list \<Rightarrow> string list \<Rightarrow> string list" where
  "frontier es S = filter (\<lambda>v. v \<notin> set S) (remdups (concat (map (succs es) S)))"

function closure :: "(string \<times> string) list \<Rightarrow> string list \<Rightarrow> string list" where
  "closure es S = (if frontier es S = [] then S else closure es (S @ frontier es S))"
  by pat_completeness auto
termination closure
proof (relation "measure (\<lambda>(es, S). card (snd ` set es - set S))")
  show "wf (measure (\<lambda>(es, S). card (snd ` set es - set S)))" by simp
next
  fix es :: "(string \<times> string) list" and S :: "string list"
  assume "frontier es S \<noteq> []"
  then obtain x where x: "x \<in> set (frontier es S)" by (cases "frontier es S") auto
  then have "x \<in> snd ` set es - set S" by (auto simp: frontier_def succs_def)
  moreover have "x \<notin> snd ` set es - set (S @ frontier es S)" using x by simp
  ultimately have "snd ` set es - set (S @ frontier es S) \<subset> snd ` set es - set S" by auto
  then have "card (snd ` set es - set (S @ frontier es S)) < card (snd ` set es - set S)"
    by (intro psubset_card_mono) auto
  then show "((es, S @ frontier es S), (es, S)) \<in> measure (\<lambda>(es, S). card (snd ` set es - set S))"
    by simp
qed

declare closure.simps [simp del]

definition reach :: "(string \<times> string) list \<Rightarrow> string \<Rightarrow> string list" where
  "reach es v = closure es (remdups (succs es v))"

definition scc :: "(string \<times> string) list \<Rightarrow> string list \<Rightarrow> string \<Rightarrow> string list" where
  "scc es vs v = filter (\<lambda>u. u = v \<or> (u \<in> set (reach es v) \<and> v \<in> set (reach es u))) vs"

definition is_cycle_component :: "(string \<times> string) list \<Rightarrow> string list \<Rightarrow> string \<Rightarrow> bool" where
  "is_cycle_component es vs v =
     (case scc es vs v of
        [] \<Rightarrow> False
      | c # cs \<Rightarrow> c = v \<and> (cs \<noteq> [] \<or> (v, v) \<in> set es))"

definition Cycles :: "Issue list \<Rightarrow> string list list" where
  "Cycles issues =
     map (scc (edges issues) (nodes issues))
       (filter (is_cycle_component (edges issues) (nodes issues)) (nodes issues))"

text \<open>
  A cycle of a list of edges is a non-empty list of nodes in which every node has an edge
  to the next one and the last node has an edge to the first.
\<close>

fun path_ok :: "(string \<times> string) list \<Rightarrow> string list \<Rightarrow> bool" where
  "path_ok es [] = True"
| "path_ok es [v] = True"
| "path_ok es (u # v # rest) = ((u, v) \<in> set es \<and> path_ok es (v # rest))"

definition is_cycle :: "(string \<times> string) list \<Rightarrow> string list \<Rightarrow> bool" where
  "is_cycle es c = (case c of [] \<Rightarrow> False | v # _ \<Rightarrow> path_ok es (c @ [v]))"

text \<open>Mutual reachability, the relation whose classes the components are.\<close>

definition mutual :: "(string \<times> string) list \<Rightarrow> string \<Rightarrow> string \<Rightarrow> bool" where
  "mutual es v u = (u = v \<or> ((v, u) \<in> (set es)\<^sup>+ \<and> (u, v) \<in> (set es)\<^sup>+))"

text \<open>The issue set of the cycle in which A blocks B and B blocks A.\<close>

definition issue_with_deps :: "string \<Rightarrow> Dependency option list \<Rightarrow> Issue" where
  "issue_with_deps i ds = \<lparr>ID = i, Title = i, Status = StatusOpen, Priority = 1, CreatedAt = 0,
     UpdatedAt = 0, Labels = [], Dependencies = ds, Comments = []\<rparr>"

definition cycle_AB :: "Issue list" where
  "cycle_AB =
    [issue_with_deps ''A'' [Some \<lparr>IssueID = ''A'', DependsOnID = ''B'', Type = DepBlocks\<rparr>],
     issue_with_deps ''B'' [Some \<lparr>IssueID = ''B'', DependsOnID = ''A'', Type = DepBlocks\<rparr>]]"

subsection \<open>The result store\<close>

text \<open>
  Modelled from the spec: a \<open>GraphStats\<close> holds the Phase-1 record, there from the
  start, and the Phase-2 record, absent until the background computation publishes it
  in one step.  The per-node metrics are one score table per metric kind; a score is the
  value of a finite \<open>float64\<close>, which is a rational number.  PageRank, betweenness, eigenvector
  centrality and the hub and authority scores are floating-point computations; their
  algorithms are parameters here (\<open>algos\<close>).  The critical-path score of a node is its
  height.
\<close>

type_synonym score = rat

type_synonym scores = "(string \<times> score) list"

definition score_of :: "scores \<Rightarrow> string \<Rightarrow> score" where
  "score_of r v = (case map_of r v of Some x \<Rightarrow> x | None \<Rightarrow> 0)"

datatype Metric = PageRankMetric | BetweennessMetric | EigenvectorMetric | HubMetric
  | AuthorityMetric | CriticalPathMetric

record Phase1Stats =
  NodeCount :: nat
  EdgeCount :: nat
  Density :: score

record Phase2Stats =
  metric_scores :: "Metric \<Rightarrow> scores"
  has_cycle :: bool
  cycle_list :: "string list list"

record GraphStats =
  phase1 :: Phase1Stats
  phase2 :: "Phase2Stats option"

text \<open>
  Modelled from the spec: density is edges over \<open>nodes * (nodes - 1)\<close>, guarded against
  at most one node.
\<close>

definition computePhase1 :: "Issue list \<Rightarrow> Phase1Stats" where
  "computePhase1 issues =
     (let n = length (nodes issues); e = length (edges issues) in
      \<lparr>NodeCount = n, EdgeCount = e,
       Density = (if n \<le> 1 then 0 else of_nat e / (of_nat n * (of_nat n - 1)))\<rparr>)"

type_synonym algos = "Issue list \<Rightarrow> Metric \<Rightarrow> scores"

definition computePhase2 :: "algos \<Rightarrow> Issue list \<Rightarrow> Phase2Stats" where
  "computePhase2 other issues =
     \<lparr>metric_scores = (\<lambda>k.
         if k = CriticalPathMetric
           then map (\<lambda>v. (v, of_int (CriticalPathHeight issues v))) (nodes issues)
         else other issues k),
      has_cycle = HasCycle issues,
      cycle_list = Cycles issues\<rparr>"

subsection \<open>Fingerprint\<close>

text \<open>
  Modelled from the spec: the fingerprint is a deterministic hash over the id, status,
  priority and dependency list of all issues that does not depend on their order.  The
  hash function is a parameter; it is applied to the sorted list of the issues' keys.
\<close>

fun status_name :: "Status \<Rightarrow> string" where
  "status_name StatusOpen = ''open''"
| "status_name StatusInProgress = ''in_progress''"
| "status_name StatusBlocked = ''blocked''"
| "status_name StatusClosed = ''closed''"
| "status_name (StatusOther s) = s"

fun kind_name :: "DependencyType \<Rightarrow> string" where
  "kind_name DepBlocks = ''blocks''"
| "kind_name DepRelated = ''related''"
| "kind_name (DepOther s) = s"

type_synonym issue_key = "string \<times> string \<times> int \<times> (string \<times> string \<times> string) list"

definition dep_key :: "Dependency \<Rightarrow> string \<times> string \<times> string" where
  "dep_key d = (IssueID d, DependsOnID d, kind_name (Type d))"

definition issue_key :: "Issue \<Rightarrow> issue_key" where
  "issue_key i =
     (ID i, status_name (Status i), Priority i,
      map dep_key (List.map_filter (\<lambda>d. d) (Dependencies i)))"

definition Fingerprint :: "(issue_key list \<Rightarrow> string) \<Rightarrow> Issue list \<Rightarrow> string" where
  "Fingerprint hash issues = hash (sort (map issue_key issues))"

subsection \<open>The analyses in flight and the cache\<close>

text \<open>
  Modelled from the spec: the \<open>GraphStats\<close> objects live in a store, by address.
  \<open>AnalyzeAsync\<close> returns at once the address of a new object with Phase 1 filled in and
  schedules its Phase 2; \<open>publish\<close> is the end of that background computation, which
  stores the whole Phase-2 record in one step and makes the analysis the cached one.  The
  cache keeps the most recent completed analysis only.  \<open>phase2_runs\<close> counts the
  Phase-2 computations started.
\<close>

record World =
  heap :: "nat \<rightharpoonup> GraphStats"
  next_addr :: nat
  pending :: "(nat \<times> Issue list) list"
  cache :: "(string \<times> nat) option"
  phase2_runs :: nat

definition init_world :: World where
  "init_world = \<lparr>heap = Map.empty, next_addr = 1, pending = [], cache = None, phase2_runs = 0\<rparr>"

definition AnalyzeAsync :: "World \<Rightarrow> Issue list \<Rightarrow> World \<times> nat" where
  "AnalyzeAsync w issues =
     (let p = next_addr w in
      (w\<lparr>heap := (heap w)(p \<mapsto> \<lparr>phase1 = computePhase1 issues, phase2 = None\<rparr>),
         next_addr := Suc p,
         pending := pending w @ [(p, issues)],
         phase2_runs := Suc (phase2_runs w)\<rparr>, p))"

definition publish :: "algos \<Rightarrow> (issue_key list \<Rightarrow> string) \<Rightarrow> World \<Rightarrow> nat \<Rightarrow> World" where
  "publish other hash w p =
     (case (map_of (pending w) p, heap w p) of
        (Some issues, Some gs) \<Rightarrow>
          w\<lparr>heap := (heap w)(p \<mapsto> gs\<lparr>phase2 := Some (computePhase2 other issues)\<rparr>),
            pending := filter (\<lambda>e. fst e \<noteq> p) (pending w),
            cache := Some (Fingerprint hash issues, p)\<rparr>
      | _ \<Rightarrow> w)"

definition published :: "World \<Rightarrow> nat \<Rightarrow> bool" where
  "published w p = (case heap w p of Some gs \<Rightarrow> phase2 gs \<noteq> None | None \<Rightarrow> False)"

text \<open>
  Modelled from the spec: an accessor reads the store and returns: 0 while Phase 2 is
  not published, the score of the node afterwards (0 for a node without one).  Only
  \<open>WaitForPhase2\<close> blocks: \<open>None\<close> stands for a caller that is still waiting.
\<close>

definition GetScore :: "Metric \<Rightarrow> World \<Rightarrow> nat \<Rightarrow> string \<Rightarrow> score" where
  "GetScore k w p i =
     (case heap w p of
        None \<Rightarrow> 0
      | Some gs \<Rightarrow> (case phase2 gs of None \<Rightarrow> 0 | Some s \<Rightarrow> score_of (metric_scores s k) i))"

definition GetPageRankScore :: "World \<Rightarrow> nat \<Rightarrow> string \<Rightarrow> score" where
  "GetPageRankScore = GetScore PageRankMetric"

definition GetBetweennessScore :: "World \<Rightarrow> nat \<Rightarrow> string \<Rightarrow> score" where
  "GetBetweennessScore = GetScore BetweennessMetric"

definition GetEigenvectorScore :: "World \<Rightarrow> nat \<Rightarrow> string \<Rightarrow> score" where
  "GetEigenvectorScore = GetScore EigenvectorMetric"

definition GetHubScore :: "World \<Rightarrow> nat \<Rightarrow> string \<Rightarrow> score" where
  "GetHubScore = GetScore HubMetric"

definition GetAuthorityScore :: "World \<Rightarrow> nat \<Rightarrow> string \<Rightarrow> score" where
  "GetAuthorityScore = GetScore AuthorityMetric"

definition GetCriticalPathScore :: "World \<Rightarrow> nat \<Rightarrow> string \<Rightarrow> score" where
  "GetCriticalPathScore = GetScore CriticalPathMetric"

definition WaitForPhase2 :: "World \<Rightarrow> nat \<Rightarrow> unit option" where
  "WaitForPhase2 w p = (if published w p then Some () else None)"

definition CyclesOf :: "World \<Rightarrow> nat \<Rightarrow> string list list" where
  "CyclesOf w p =
     (case heap w p of
        None \<Rightarrow> []
      | Some gs \<Rightarrow> (case phase2 gs of None \<Rightarrow> [] | Some s \<Rightarrow> cycle_list s))"

text \<open>
  Modelled from the spec: \<open>NewCachedAnalyzer(issues, previousCache)\<close> compares the
  fingerprint of its issues with the one of the cached analysis.  On a match
  \<open>AnalyzeAsync\<close> hands out the cached, complete \<open>GraphStats\<close>; otherwise it starts a
  new analysis.  The cache consulted is the one passed in.  What the package consults
  when the argument is \<open>nil\<close> (\<open>None\<close>) is not in the spec: it is the parameter
  \<open>nil_cache\<close>, for which the shared cache of the world, \<open>cache\<close>, is one choice.
\<close>

type_synonym cache_slot = "(string \<times> nat) option"

definition consulted_cache :: "(World \<Rightarrow> cache_slot) \<Rightarrow> World \<Rightarrow> cache_slot option \<Rightarrow> cache_slot" where
  "consulted_cache nil_cache w previousCache =
     (case previousCache of None \<Rightarrow> nil_cache w | Some c \<Rightarrow> c)"

record Analyzer =
  analyzer_issues :: "Issue list"

definition NewAnalyzer :: "Issue list \<Rightarrow> Analyzer" where
  "NewAnalyzer issues = \<lparr>analyzer_issues = issues\<rparr>"

record CachedAnalyzer =
  Analyzer :: Analyzer
  cached :: "nat option"

definition NewCachedAnalyzer ::
  "(issue_key list \<Rightarrow> string) \<Rightarrow> (World \<Rightarrow> cache_slot) \<Rightarrow> World \<Rightarrow> Issue list
     \<Rightarrow> cache_slot option \<Rightarrow> CachedAnalyzer" where
  "NewCachedAnalyzer hash nil_cache w issues previousCache =
     \<lparr>Analyzer = NewAnalyzer issues,
      cached = (case consulted_cache nil_cache w previousCache of
                  Some (fp, p) \<Rightarrow> if fp = Fingerprint hash issues then Some p else None
                | None \<Rightarrow> None)\<rparr>"

definition Cached_AnalyzeAsync :: "World \<Rightarrow> CachedAnalyzer \<Rightarrow> World \<times> nat" where
  "Cached_AnalyzeAsync w ca =
     (case cached ca of
        Some p \<Rightarrow> (w, p)
      | None \<Rightarrow> AnalyzeAsync w (analyzer_issues (Analyzer ca)))"

definition WasCacheHit :: "CachedAnalyzer \<Rightarrow> bool" where
  "WasCacheHit ca = (cached ca \<noteq> None)"

text \<open>
  In the worlds the operations produce, every scheduled address is below \<open>next_addr\<close>,
  so that a new analysis never takes the address of one in flight.
\<close>

definition wf_world :: "World \<Rightarrow> bool" where
  "wf_world w = list_all (\<lambda>e. fst e < next_addr w) (pending w)"

section \<open>Package ui: the model and its updates\<close>

datatype panic = NilPointerDereference

datatype focus = focusList | focusDetail | focusBoard | focusGraph | focusLabelDashboard
  | focusInsights | focusActionable | focusRecipePicker | focusRepoPicker | focusHelp
  | focusQuitConfirm | focusTimeTravelInput | focusHistory | focusAttention | focusLabelPicker
  | focusSprint

datatype DiffStatus = DiffStatusNone | DiffStatusNew | DiffStatusClosed | DiffStatusModified

text \<open>
  The types of the other packages whose values the model only stores and hands on
  (insights, alerts, widgets of the terminal library) are the type parameter \<open>'w\<close>.
\<close>

record TriageReasons =
  Primary :: string
  All_reasons :: "string list"
  ActionHint :: string

record IssueItem =
  item_Issue :: Issue
  GraphScore :: score
  Impact :: score
  item_DiffStatus :: DiffStatus
  RepoPrefix :: string
  TriageScore :: score
  TriageReason :: string
  item_TriageReasons :: "string list"
  IsQuickWin :: bool
  IsBlocker :: bool
  UnblocksCount :: nat

text \<open>The list widget: its items and the index of the selected one.\<close>

record ListModel =
  items :: "IssueItem list"
  index :: nat

definition list_SetItems :: "IssueItem list \<Rightarrow> ListModel \<Rightarrow> ListModel" where
  "list_SetItems its l = l\<lparr>items := its\<rparr>"

definition list_Select :: "nat \<Rightarrow> ListModel \<Rightarrow> ListModel" where
  "list_Select i l = l\<lparr>index := i\<rparr>"

definition list_SelectedItem :: "ListModel \<Rightarrow> IssueItem option" where
  "list_SelectedItem l = (if index l < length (items l) then Some (items l ! index l) else None)"

record Recipe =
  Recipe_Name :: string
  Sort_Field :: string
  Sort_Direction :: string

record 'w InsightsModel =
  extraText :: string
  panel :: 'w

record 'w Sprint =
  Sprint_ID :: string
  Sprint_data :: 'w

datatype Cmd = CheckUpdateCmd | WaitForPhase2Cmd nat | WatchFileCmd nat
  | BuildSemanticIndexCmd "Issue list" | ListCmd nat | Batch "Cmd list"

datatype Msg = UpdateMsg string string | Phase2ReadyMsg nat | FileChangedMsg

text \<open>
  \<open>tea.Batch\<close> drops the \<open>nil\<close> commands and is itself \<open>nil\<close> when none is left.
\<close>

definition tea_Batch :: "Cmd option list \<Rightarrow> Cmd option" where
  "tea_Batch cmds =
     (case List.map_filter (\<lambda>c. c) cmds of [] \<Rightarrow> None | c # cs \<Rightarrow> Some (Batch (c # cs)))"

record 'w Model =
  issues :: "Issue list"
  issueMap :: "string \<rightharpoonup> Issue"
  analyzer :: Analyzer
  analysis :: nat
  beadsPath :: string
  watcher :: "nat option"
  list :: ListModel
  viewport :: 'w
  board :: 'w
  labelDashboard :: 'w
  graphView :: 'w
  insightsPanel :: "'w InsightsModel"
  updateAvailable :: bool
  updateTag :: string
  updateURL :: string
  focused :: focus
  width :: int
  height :: int
  showAttentionView :: bool
  labelHealthCached :: bool
  labelHealthCache :: 'w
  attentionCached :: bool
  flowMatrixText :: string
  currentFilter :: string
  semanticSearchEnabled :: bool
  semanticIndexBuilding :: bool
  semanticSearch :: "string list option"
  countOpen :: int
  countReady :: int
  countBlocked :: int
  countClosed :: int
  priorityHints :: "string \<rightharpoonup> 'w"
  triageScores :: "string \<rightharpoonup> score"
  triageReasons :: "string \<rightharpoonup> TriageReasons"
  unblocksMap :: "string \<rightharpoonup> string list"
  quickWinSet :: "string \<rightharpoonup> bool"
  blockerSet :: "string \<rightharpoonup> bool"
  activeRecipe :: "Recipe option"
  timeTravelMode :: bool
  timeTravelDiff :: "'w option"
  timeTravelSince :: string
  newIssueIDs :: "(string \<rightharpoonup> bool) option"
  closedIssueIDs :: "(string \<rightharpoonup> bool) option"
  modifiedIssueIDs :: "(string \<rightharpoonup> bool) option"
  statusMsg :: string
  statusIsError :: bool
  workspaceMode :: bool
  activeRepos :: "(string \<rightharpoonup> bool) option"
  alerts :: 'w
  alertsCritical :: int
  alertsWarning :: int
  alertsInfo :: int
  showAlertsPanel :: bool
  dismissedAlerts :: "string \<rightharpoonup> bool"
  sprints :: "'w Sprint list"
  selectedSprint :: "'w Sprint option"
  sprintViewText :: string
  labelDrilldownCache :: "string \<rightharpoonup> Issue list"

text \<open>
  What the update paths call outside the files embedded here is a record of parameters:
  \<open>IsBlocking\<close> (a method of \<open>DependencyType\<close> in package \<open>model\<close>), the issue and
  sprint loaders, the terminal widgets, the insight, triage and alert generators, path and
  string helpers of the standard library (\<open>Sprint_d\<close> is \<open>fmt.Sprintf\<close> with \<open>%d\<close>),
  the rendering of the detail pane, the cache that \<open>analysis.NewCachedAnalyzer\<close>
  consults for a \<open>nil\<close> argument (\<open>nilCache\<close>), and \<open>applyRecipe\<close>, of which only the
  fields it writes are kept.
\<close>

record 'w RecipeView =
  rv_list :: ListModel
  rv_semanticSearch :: "string list option"
  rv_board :: 'w
  rv_graphView :: 'w
  rv_currentFilter :: string
  rv_viewport :: 'w

record 'w ui_env =
  IsBlocking :: "DependencyType \<Rightarrow> bool"
  ExtractRepoPrefix :: "string \<Rightarrow> string"
  ToLower :: "string \<Rightarrow> string"
  Sprint_d :: "nat \<Rightarrow> string"
  LoadIssuesFromFile :: "string \<Rightarrow> string + (Issue list \<times> string list)"
  sprintsPath :: "string \<Rightarrow> string"
  LoadSprintsFromFile :: "string \<Rightarrow> string + 'w Sprint list"
  renderSprintDashboard :: "'w Model \<Rightarrow> string"
  viewport_SetContent :: "string \<Rightarrow> 'w \<Rightarrow> 'w"
  renderViewport :: "'w Model \<Rightarrow> 'w"
  nilCache :: "World \<Rightarrow> cache_slot"
  list_Update :: "Msg \<Rightarrow> ListModel \<Rightarrow> ListModel \<times> Cmd option"
  GenerateInsights :: "World \<Rightarrow> nat \<Rightarrow> nat \<Rightarrow> 'w"
  NewInsightsModel :: "'w \<Rightarrow> (string \<rightharpoonup> Issue) \<Rightarrow> 'w InsightsModel"
  insights_SetSize :: "int \<Rightarrow> int \<Rightarrow> 'w InsightsModel \<Rightarrow> 'w InsightsModel"
  insights_SetTopPicks :: "'w \<Rightarrow> 'w InsightsModel \<Rightarrow> 'w InsightsModel"
  insights_SetRecommendations :: "'w \<Rightarrow> 'w InsightsModel \<Rightarrow> 'w InsightsModel"
  graph_SetIssues :: "Issue list \<Rightarrow> 'w \<Rightarrow> 'w \<Rightarrow> 'w"
  board_SetIssues :: "Issue list \<Rightarrow> 'w \<Rightarrow> 'w"
  NewBoardModel :: "Issue list \<Rightarrow> 'w"
  ComputeTriage :: "Issue list \<Rightarrow> 'w"
  GenerateRecommendations :: "World \<Rightarrow> Analyzer \<Rightarrow> (string \<times> 'w) list"
  computeAlerts :: "World \<Rightarrow> Issue list \<Rightarrow> nat \<Rightarrow> Analyzer \<Rightarrow> 'w \<times> int \<times> int \<times> int"
  ComputeAllLabelHealth :: "World \<Rightarrow> Issue list \<Rightarrow> nat \<Rightarrow> 'w"
  labelDashboard_SetData :: "'w \<Rightarrow> 'w \<Rightarrow> 'w"
  labelHealth_status :: "'w \<Rightarrow> string"
  applyRecipe_view :: "Recipe \<Rightarrow> World \<Rightarrow> 'w Model \<Rightarrow> panic + 'w RecipeView"

subsection \<open>Counting open, ready, blocked and closed issues\<close>

text \<open>
  The loop over the dependencies in \<open>NewModel\<close> (and again in the reload path of
  \<open>Update\<close>): a \<open>nil\<close> entry and an entry that is not blocking are passed over; the
  loop stops at the first blocker that exists and is not closed.
\<close>

fun isBlocked :: "(DependencyType \<Rightarrow> bool) \<Rightarrow> (string \<rightharpoonup> Issue) \<Rightarrow> Dependency option list \<Rightarrow> bool" where
  "isBlocked isB im [] = False"
| "isBlocked isB im (dep # deps) =
     (case dep of
        None \<Rightarrow> isBlocked isB im deps
      | Some d \<Rightarrow>
          if \<not> isB (Type d) then isBlocked isB im deps
          else (case im (DependsOnID d) of
                  Some blocker \<Rightarrow>
                    if Status blocker \<noteq> StatusClosed then True else isBlocked isB im deps
                | None \<Rightarrow> isBlocked isB im deps))"

record Counts =
  cOpen :: int
  cReady :: int
  cBlocked :: int
  cClosed :: int

definition count_issue :: "(DependencyType \<Rightarrow> bool) \<Rightarrow> (string \<rightharpoonup> Issue) \<Rightarrow> Issue \<Rightarrow> Counts \<Rightarrow> Counts" where
  "count_issue isB im issue c =
     (if Status issue = StatusClosed then c\<lparr>cClosed := cClosed c + 1\<rparr>
      else let c1 = c\<lparr>cOpen := cOpen c + 1\<rparr> in
        if Status issue = StatusBlocked then c1\<lparr>cBlocked := cBlocked c1 + 1\<rparr>
        else if \<not> isBlocked isB im (Dependencies issue) then c1\<lparr>cReady := cReady c1 + 1\<rparr>
        else c1)"

definition computeStats :: "(DependencyType \<Rightarrow> bool) \<Rightarrow> (string \<rightharpoonup> Issue) \<Rightarrow> Issue list \<Rightarrow> Counts" where
  "computeStats isB im is =
     fold (count_issue isB im) is \<lparr>cOpen = 0, cReady = 0, cBlocked = 0, cClosed = 0\<rparr>"

text \<open>The lookup map: a later issue with the same id replaces an earlier one.\<close>

definition buildIssueMap :: "Issue list \<Rightarrow> (string \<rightharpoonup> Issue) \<Rightarrow> (string \<rightharpoonup> Issue)" where
  "buildIssueMap is im = fold (\<lambda>i m. m(ID i \<mapsto> i)) is im"

subsection \<open>Sorting\<close>

text \<open>
  \<open>sort.Slice\<close> sorts by a less-than function and may order equal elements either
  way; the model inserts each element before the first one it is less than.
\<close>

fun insert_by :: "('a \<Rightarrow> 'a \<Rightarrow> bool) \<Rightarrow> 'a \<Rightarrow> 'a list \<Rightarrow> 'a list" where
  "insert_by lt x [] = [x]"
| "insert_by lt x (y # ys) = (if lt x y then x # y # ys else y # insert_by lt x ys)"

definition sort_Slice :: "('a \<Rightarrow> 'a \<Rightarrow> bool) \<Rightarrow> 'a list \<Rightarrow> 'a list" where
  "sort_Slice lt xs = foldr (insert_by lt) xs []"

text \<open>The default order: open issues first, then by priority, then the newer first.\<close>

definition default_less :: "Issue \<Rightarrow> Issue \<Rightarrow> bool" where
  "default_less i j =
     (let iClosed = (Status i = StatusClosed); jClosed = (Status j = StatusClosed) in
      if iClosed \<noteq> jClosed then \<not> iClosed
      else if Priority i \<noteq> Priority j then Priority i < Priority j
      else CreatedAt j < CreatedAt i)"

subsection \<open>\<open>applyFilter\<close>\<close>

definition lookup_bool :: "('k \<rightharpoonup> bool) \<Rightarrow> 'k \<Rightarrow> bool" where
  "lookup_bool m k = (case m k of Some b \<Rightarrow> b | None \<Rightarrow> False)"

definition lookup_nil :: "('k \<rightharpoonup> bool) option \<Rightarrow> 'k \<Rightarrow> bool" where
  "lookup_nil mo k = (case mo of Some m \<Rightarrow> lookup_bool m k | None \<Rightarrow> False)"

definition getDiffStatus :: "'w Model \<Rightarrow> string \<Rightarrow> DiffStatus" where
  "getDiffStatus m i =
     (if \<not> timeTravelMode m then DiffStatusNone
      else if lookup_nil (newIssueIDs m) i then DiffStatusNew
      else if lookup_nil (closedIssueIDs m) i then DiffStatusClosed
      else if lookup_nil (modifiedIssueIDs m) i then DiffStatusModified
      else DiffStatusNone)"

text \<open>
  The loop of the \<open>ready\<close> filter reads \<open>dep.Type\<close> of every entry it reaches; on a
  \<open>nil\<close> entry that is a nil pointer dereference.
\<close>

fun ready_isBlocked :: "(string \<rightharpoonup> Issue) \<Rightarrow> Dependency option list \<Rightarrow> panic + bool" where
  "ready_isBlocked im [] = Inr False"
| "ready_isBlocked im (dep # deps) =
     (case dep of
        None \<Rightarrow> Inl NilPointerDereference
      | Some d \<Rightarrow>
          if Type d = DepBlocks then
            (case im (DependsOnID d) of
               Some blocker \<Rightarrow>
                 if Status blocker \<noteq> StatusClosed then Inr True else ready_isBlocked im deps
             | None \<Rightarrow> ready_isBlocked im deps)
          else ready_isBlocked im deps)"

definition filter_include :: "'w ui_env \<Rightarrow> 'w Model \<Rightarrow> Issue \<Rightarrow> panic + bool" where
  "filter_include env m issue =
     (if workspaceMode m \<and> activeRepos m \<noteq> None
         \<and> ToLower env (ExtractRepoPrefix env (ID issue)) \<noteq> ''''
         \<and> \<not> lookup_nil (activeRepos m) (ToLower env (ExtractRepoPrefix env (ID issue)))
      then Inr False
      else if currentFilter m = ''all'' then Inr True
      else if currentFilter m = ''open'' then Inr (Status issue \<noteq> StatusClosed)
      else if currentFilter m = ''closed'' then Inr (Status issue = StatusClosed)
      else if currentFilter m = ''ready'' then
        (if Status issue \<noteq> StatusClosed \<and> Status issue \<noteq> StatusBlocked then
           (case ready_isBlocked (issueMap m) (Dependencies issue) of
              Inl e \<Rightarrow> Inl e
            | Inr b \<Rightarrow> Inr (\<not> b))
         else Inr False)
      else if take 6 (currentFilter m) = ''label:''
        then Inr (drop 6 (currentFilter m) \<in> set (Labels issue))
      else Inr False)"

fun filter_issues :: "'w ui_env \<Rightarrow> 'w Model \<Rightarrow> Issue list \<Rightarrow> panic + Issue list" where
  "filter_issues env m [] = Inr []"
| "filter_issues env m (issue # rest) =
     (case filter_include env m issue of
        Inl e \<Rightarrow> Inl e
      | Inr inc \<Rightarrow>
          (case filter_issues env m rest of
             Inl e \<Rightarrow> Inl e
           | Inr kept \<Rightarrow> Inr (if inc then issue # kept else kept)))"

definition filter_item :: "'w ui_env \<Rightarrow> World \<Rightarrow> 'w Model \<Rightarrow> Issue \<Rightarrow> IssueItem" where
  "filter_item env w m issue =
     \<lparr>item_Issue = issue,
      GraphScore = GetPageRankScore w (analysis m) (ID issue),
      Impact = GetCriticalPathScore w (analysis m) (ID issue),
      item_DiffStatus = getDiffStatus m (ID issue),
      RepoPrefix = ExtractRepoPrefix env (ID issue),
      TriageScore = (case triageScores m (ID issue) of Some x \<Rightarrow> x | None \<Rightarrow> 0),
      TriageReason = (case triageReasons m (ID issue) of Some r \<Rightarrow> Primary r | None \<Rightarrow> ''''),
      item_TriageReasons =
        (case triageReasons m (ID issue) of Some r \<Rightarrow> All_reasons r | None \<Rightarrow> []),
      IsQuickWin = lookup_bool (quickWinSet m) (ID issue),
      IsBlocker = lookup_bool (blockerSet m) (ID issue),
      UnblocksCount = (case unblocksMap m (ID issue) of Some l \<Rightarrow> length l | None \<Rightarrow> 0)\<rparr>"

definition updateSemanticIDs :: "IssueItem list \<Rightarrow> 'w Model \<Rightarrow> 'w Model" where
  "updateSemanticIDs its m =
     (case semanticSearch m of
        None \<Rightarrow> m
      | Some _ \<Rightarrow> m\<lparr>semanticSearch := Some (map (\<lambda>it. ID (item_Issue it)) its)\<rparr>)"

text \<open>
  \<open>updateViewportContent\<close> shows a fixed text when no item is selected.  Otherwise it
  renders the selected issue (the text it builds is a parameter); on the way it reads
  \<open>Author\<close>, \<open>CreatedAt\<close> and \<open>Text\<close> of every comment, so a \<open>nil\<close> comment is a nil
  pointer dereference.
\<close>

definition updateViewportContent :: "'w ui_env \<Rightarrow> 'w Model \<Rightarrow> panic + 'w Model" where
  "updateViewportContent env m =
     (case list_SelectedItem (list m) of
        None \<Rightarrow> Inr (m\<lparr>viewport := viewport_SetContent env ''No issues selected'' (viewport m)\<rparr>)
      | Some issueItem \<Rightarrow>
          if None \<in> set (Comments (item_Issue issueItem)) then Inl NilPointerDereference
          else Inr (m\<lparr>viewport := renderViewport env m\<rparr>))"

definition applyFilter :: "'w ui_env \<Rightarrow> World \<Rightarrow> 'w Model \<Rightarrow> panic + 'w Model" where
  "applyFilter env w m =
     (case filter_issues env m (issues m) of
        Inl e \<Rightarrow> Inl e
      | Inr filteredIssues \<Rightarrow>
          (let filteredItems = map (filter_item env w m) filteredIssues;
               m1 = m\<lparr>list := list_SetItems filteredItems (list m)\<rparr>;
               m2 = updateSemanticIDs filteredItems m1;
               m3 = m2\<lparr>board := board_SetIssues env filteredIssues (board m2)\<rparr>;
               filterIns = GenerateInsights env w (analysis m3) (length filteredIssues);
               m4 = m3\<lparr>graphView := graph_SetIssues env filteredIssues filterIns (graphView m3)\<rparr>;
               m5 = (if filteredItems \<noteq> [] \<and> length filteredItems \<le> index (list m4)
                     then m4\<lparr>list := list_Select 0 (list m4)\<rparr> else m4)
           in updateViewportContent env m5))"

definition applyRecipe :: "'w ui_env \<Rightarrow> Recipe \<Rightarrow> World \<Rightarrow> 'w Model \<Rightarrow> panic + 'w Model" where
  "applyRecipe env r w m =
     (case applyRecipe_view env r w m of
        Inl e \<Rightarrow> Inl e
      | Inr v \<Rightarrow>
          Inr (m\<lparr>list := rv_list v, semanticSearch := rv_semanticSearch v, board := rv_board v,
                 graphView := rv_graphView v, currentFilter := rv_currentFilter v,
                 viewport := rv_viewport v\<rparr>))"

subsection \<open>\<open>Update\<close>: the end of Phase 2\<close>

text \<open>
  The branch of \<open>Update\<close> for a \<open>Phase2ReadyMsg\<close> of the current analysis, one
  definition per block of the source, in the source's order: the insights panel and the
  graph view, the triage, the priority hints, the alerts, the label health, the re-sort
  by a Phase-2 metric, and the recipe or the filter applied again.
\<close>

definition refreshInsights :: "'w ui_env \<Rightarrow> World \<Rightarrow> 'w Model \<Rightarrow> 'w Model" where
  "refreshInsights env w m =
     (let ins = GenerateInsights env w (analysis m) (length (issues m));
          bodyHeight = (if height m - 1 < 5 then 5 else height m - 1)
      in m\<lparr>insightsPanel :=
               insights_SetSize env (width m) bodyHeight (NewInsightsModel env ins (issueMap m)),
            graphView := graph_SetIssues env (issues m) ins (graphView m)\<rparr>)"

definition refreshTriage :: "'w ui_env \<Rightarrow> 'w Model \<Rightarrow> 'w Model" where
  "refreshTriage env m =
     (let triage = ComputeTriage env (issues m)
      in m\<lparr>insightsPanel :=
               insights_SetRecommendations env triage
                 (insights_SetTopPicks env triage (insightsPanel m))\<rparr>)"

definition refreshPriorityHints :: "'w ui_env \<Rightarrow> World \<Rightarrow> 'w Model \<Rightarrow> 'w Model" where
  "refreshPriorityHints env w m =
     m\<lparr>priorityHints := map_of (rev (GenerateRecommendations env w (analyzer m)))\<rparr>"

definition refreshAlerts :: "'w ui_env \<Rightarrow> World \<Rightarrow> 'w Model \<Rightarrow> 'w Model" where
  "refreshAlerts env w m =
     (case computeAlerts env w (issues m) (analysis m) (analyzer m) of
        (a, critical, warning, info) \<Rightarrow>
          m\<lparr>alerts := a, alertsCritical := critical, alertsWarning := warning,
            alertsInfo := info\<rparr>)"

definition refreshLabelHealth :: "'w ui_env \<Rightarrow> World \<Rightarrow> 'w Model \<Rightarrow> 'w Model" where
  "refreshLabelHealth env w m =
     (let m1 = m\<lparr>labelHealthCached := False\<rparr> in
      if focused m1 = focusLabelDashboard then
        (let c = ComputeAllLabelHealth env w (issues m1) (analysis m1)
         in m1\<lparr>labelHealthCache := c, labelHealthCached := True,
               labelDashboard := labelDashboard_SetData env c (labelDashboard m1),
               statusMsg := labelHealth_status env c\<rparr>)
      else m1)"

definition metric_less :: "World \<Rightarrow> 'w Model \<Rightarrow> Recipe \<Rightarrow> Issue \<Rightarrow> Issue \<Rightarrow> bool" where
  "metric_less w m r i j =
     (let lt = (if Sort_Field r = ''impact''
                then GetCriticalPathScore w (analysis m) (ID i)
                       < GetCriticalPathScore w (analysis m) (ID j)
                else GetPageRankScore w (analysis m) (ID i)
                       < GetPageRankScore w (analysis m) (ID j))
      in if Sort_Direction r = ''desc'' then \<not> lt else lt)"

definition resortByMetric :: "World \<Rightarrow> 'w Model \<Rightarrow> 'w Model" where
  "resortByMetric w m =
     (case activeRecipe m of
        None \<Rightarrow> m
      | Some r \<Rightarrow>
          if Sort_Field r = ''impact'' \<or> Sort_Field r = ''pagerank'' then
            (let sorted = sort_Slice (metric_less w m r) (issues m)
             in m\<lparr>issues := sorted, issueMap := buildIssueMap sorted (issueMap m)\<rparr>)
          else m)"

definition reapplyView :: "'w ui_env \<Rightarrow> World \<Rightarrow> 'w Model \<Rightarrow> panic + 'w Model" where
  "reapplyView env w m =
     (case activeRecipe m of
        Some r \<Rightarrow> applyRecipe env r w m
      | None \<Rightarrow> applyFilter env w m)"

definition Phase2Ready_refresh :: "'w ui_env \<Rightarrow> World \<Rightarrow> 'w Model \<Rightarrow> panic + 'w Model" where
  "Phase2Ready_refresh env w m =
     reapplyView env w
       (resortByMetric w
         (refreshLabelHealth env w
           (refreshAlerts env w
             (refreshPriorityHints env w
               (refreshTriage env
                 (refreshInsights env w m))))))"

text \<open>
  After the switch over the message, \<open>Update\<close> hands the message to the list widget when
  the list has the focus, and returns the batch of the commands collected.
\<close>

definition forwardToList ::
  "'w ui_env \<Rightarrow> Msg \<Rightarrow> Cmd option list \<Rightarrow> 'w Model \<Rightarrow> 'w Model \<times> Cmd option" where
  "forwardToList env msg cmds m =
     (if focused m = focusList then
        (case list_Update env msg (list m) of
           (l, cmd) \<Rightarrow> (m\<lparr>list := l\<rparr>, tea_Batch (cmds @ [cmd])))
      else (m, tea_Batch cmds))"

subsection \<open>\<open>Update\<close>: the file changed\<close>

text \<open>
  The branch of \<open>Update\<close> for a \<open>FileChangedMsg\<close>.  Without a path it only re-arms the
  watcher.  Otherwise it clears the attention overlay, leaves time-travel mode and calls
  the loader; on an error it sets the status message and re-arms the watcher; on success
  \<open>reload\<close> replaces the issues, asks the cached analyzer (made with a \<open>nil\<close> cache
  argument, as in the source) for the analysis and rebuilds the map, the counts, the
  alerts, the list and the views.
\<close>

definition clearAttentionOverlay :: "'w Model \<Rightarrow> 'w Model" where
  "clearAttentionOverlay m =
     (if showAttentionView m
      then m\<lparr>showAttentionView := False,
             insightsPanel := (insightsPanel m)\<lparr>extraText := ''''\<rparr>\<rparr>
      else m)"

definition leaveTimeTravel :: "'w Model \<Rightarrow> 'w Model" where
  "leaveTimeTravel m =
     (if timeTravelMode m
      then m\<lparr>timeTravelMode := False, timeTravelDiff := None, timeTravelSince := '''',
             newIssueIDs := None, closedIssueIDs := None, modifiedIssueIDs := None\<rparr>
      else m)"

definition watchAgain :: "'w Model \<Rightarrow> Cmd option list" where
  "watchAgain m = (case watcher m of Some wt \<Rightarrow> [Some (WatchFileCmd wt)] | None \<Rightarrow> [])"

definition reload_item :: "'w ui_env \<Rightarrow> World \<Rightarrow> 'w Model \<Rightarrow> Issue \<Rightarrow> IssueItem" where
  "reload_item env w m issue =
     \<lparr>item_Issue = issue,
      GraphScore = GetPageRankScore w (analysis m) (ID issue),
      Impact = GetCriticalPathScore w (analysis m) (ID issue),
      item_DiffStatus = DiffStatusNone,
      RepoPrefix = ExtractRepoPrefix env (ID issue),
      TriageScore = 0, TriageReason = '''', item_TriageReasons = [],
      IsQuickWin = False, IsBlocker = False, UnblocksCount = 0\<rparr>"

fun find_item :: "string \<Rightarrow> IssueItem list \<Rightarrow> nat \<Rightarrow> nat option" where
  "find_item sid [] k = None"
| "find_item sid (it # its) k =
     (if ID (item_Issue it) = sid then Some k else find_item sid its (Suc k))"

definition restoreSelection :: "string \<Rightarrow> 'w Model \<Rightarrow> 'w Model" where
  "restoreSelection selectedID m =
     (if selectedID \<noteq> '''' then
        (case find_item selectedID (items (list m)) 0 of
           Some i \<Rightarrow> m\<lparr>list := list_Select i (list m)\<rparr>
         | None \<Rightarrow> m)
      else m)"

definition recount :: "'w ui_env \<Rightarrow> 'w Model \<Rightarrow> 'w Model" where
  "recount env m =
     (let c = computeStats (IsBlocking env) (issueMap m) (issues m)
      in m\<lparr>countOpen := cOpen c, countReady := cReady c, countBlocked := cBlocked c,
            countClosed := cClosed c\<rparr>)"

definition reloadSprints :: "'w ui_env \<Rightarrow> 'w Model \<Rightarrow> 'w Model" where
  "reloadSprints env m =
     (if beadsPath m \<noteq> '''' then
        (case LoadSprintsFromFile env (sprintsPath env (beadsPath m)) of
           Inl _ \<Rightarrow> m
         | Inr loaded \<Rightarrow>
             (let m1 = m\<lparr>sprints := loaded\<rparr> in
              case selectedSprint m1 of
                None \<Rightarrow> m1
              | Some sel \<Rightarrow>
                  (case find (\<lambda>s. Sprint_ID s = Sprint_ID sel) (sprints m1) of
                     Some s \<Rightarrow>
                       (let m2 = m1\<lparr>selectedSprint := Some s\<rparr>
                        in m2\<lparr>sprintViewText := renderSprintDashboard env m2\<rparr>)
                   | None \<Rightarrow>
                       m1\<lparr>selectedSprint := None, sprintViewText := ''Sprint not found''\<rparr>)))
      else m)"

definition reload_status :: "'w ui_env \<Rightarrow> bool \<Rightarrow> nat \<Rightarrow> nat \<Rightarrow> string" where
  "reload_status env cacheHit n warnings =
     (if cacheHit then ''Reloaded '' @ Sprint_d env n @ '' issues (cached)''
      else ''Reloaded '' @ Sprint_d env n @ '' issues'')
     @ (if 0 < warnings then '' ('' @ Sprint_d env warnings @ '' warnings)'' else '''')"

definition reload ::
  "'w ui_env \<Rightarrow> (issue_key list \<Rightarrow> string) \<Rightarrow> World \<Rightarrow> 'w Model \<Rightarrow> Issue list \<Rightarrow> string list
     \<Rightarrow> panic + (World \<times> 'w Model \<times> Cmd option)" where
  "reload env hash w m loaded reloadWarnings =
     (let selectedID = (case list_SelectedItem (list m) of
                          Some it \<Rightarrow> ID (item_Issue it) | None \<Rightarrow> '''');
          newIssues = sort_Slice default_less loaded;
          cachedAnalyzer = NewCachedAnalyzer hash (nilCache env) w newIssues None;
          started = Cached_AnalyzeAsync w cachedAnalyzer;
          w' = fst started;
          cacheHit = WasCacheHit cachedAnalyzer;
          m1 = m\<lparr>issues := newIssues, analyzer := Analyzer cachedAnalyzer,
                 analysis := snd started, labelHealthCached := False,
                 attentionCached := False, flowMatrixText := ''''\<rparr>;
          m2 = m1\<lparr>issueMap := buildIssueMap (issues m1) Map.empty, priorityHints := Map.empty\<rparr>;
          m3 = recount env m2;
          m4 = (refreshAlerts env w' m3)\<lparr>dismissedAlerts := Map.empty, showAlertsPanel := False\<rparr>;
          its = map (reload_item env w' m4) (issues m4);
          m5 = updateSemanticIDs its (m4\<lparr>list := list_SetItems its (list m4)\<rparr>);
          m6 = restoreSelection selectedID m5;
          m7 = refreshInsights env w' m6;
          m8 = m7\<lparr>board := NewBoardModel env (issues m7)\<rparr>
      in case (case activeRecipe m8 of Some r \<Rightarrow> applyRecipe env r w' m8 | None \<Rightarrow> Inr m8) of
           Inl e \<Rightarrow> Inl e
         | Inr m9 \<Rightarrow>
             (let m10 = reloadSprints env m9;
                  indexing = (semanticSearchEnabled m10 \<and> \<not> semanticIndexBuilding m10);
                  m11 = (if indexing then m10\<lparr>semanticIndexBuilding := True\<rparr> else m10);
                  cmds = (if indexing then [Some (BuildSemanticIndexCmd (issues m11))] else []);
                  m12 = m11\<lparr>statusMsg := reload_status env cacheHit (length newIssues)
                                            (length reloadWarnings),
                           statusIsError := False, labelHealthCached := False,
                           labelDrilldownCache := Map.empty\<rparr>
              in case updateViewportContent env m12 of
                   Inl e \<Rightarrow> Inl e
                 | Inr m13 \<Rightarrow>
                     Inr (w', m13,
                          tea_Batch (cmds @ watchAgain m13
                                       @ [Some (WaitForPhase2Cmd (analysis m13))]))))"

definition FileChanged ::
  "'w ui_env \<Rightarrow> (issue_key list \<Rightarrow> string) \<Rightarrow> World \<Rightarrow> 'w Model
     \<Rightarrow> panic + (World \<times> 'w Model \<times> Cmd option)" where
  "FileChanged env hash w m =
     (if beadsPath m = '''' then Inr (w, m, tea_Batch (watchAgain m))
      else let m1 = leaveTimeTravel (clearAttentionOverlay m) in
        case LoadIssuesFromFile env (beadsPath m1) of
          Inl err \<Rightarrow>
            (let m2 = m1\<lparr>statusMsg := ''Reload error: '' @ err, statusIsError := True\<rparr>
             in Inr (w, m2, tea_Batch (watchAgain m2)))
        | Inr (loaded, reloadWarnings) \<Rightarrow> reload env hash w m1 loaded reloadWarnings)"

subsection \<open>\<open>Update\<close>\<close>

text \<open>
  \<open>Update\<close> on the three messages embedded here.  The analyses live in the world, which
  \<open>Update\<close> reads and, on a reload, extends.  A panic of the Go code is the result
  \<open>Inl\<close>.
\<close>

definition Update ::
  "'w ui_env \<Rightarrow> (issue_key list \<Rightarrow> string) \<Rightarrow> Msg \<Rightarrow> World \<times> 'w Model
     \<Rightarrow> panic + (World \<times> 'w Model \<times> Cmd option)" where
  "Update env hash msg wm =
     (case wm of (w, m) \<Rightarrow>
       (case msg of
          UpdateMsg tag url \<Rightarrow>
            (case forwardToList env msg []
                    (m\<lparr>updateAvailable := True, updateTag := tag, updateURL := url\<rparr>) of
               (m', cmd) \<Rightarrow> Inr (w, m', cmd))
        | Phase2ReadyMsg stats \<Rightarrow>
            if stats \<noteq> analysis m then Inr (w, m, None)
            else (case Phase2Ready_refresh env w m of
                    Inl e \<Rightarrow> Inl e
                  | Inr m1 \<Rightarrow>
                      (case forwardToList env msg [] m1 of (m', cmd) \<Rightarrow> Inr (w, m', cmd)))
        | FileChangedMsg \<Rightarrow> FileChanged env hash w m))"

subsection \<open>A concrete model and environment\<close>

text \<open>
  A model without issues and an environment whose loader fails, whose widgets are
  trivial and whose generators return nothing, for evaluating the update paths.
\<close>

definition empty_model :: "unit Model" where
  "empty_model = \<lparr>
     issues = [], issueMap = Map.empty, analyzer = NewAnalyzer [], analysis = 1,
     beadsPath = ''beads.jsonl'', watcher = None,
     list = \<lparr>items = [], index = 0\<rparr>,
     viewport = (), board = (), labelDashboard = (), graphView = (),
     insightsPanel = \<lparr>extraText = '''', panel = ()\<rparr>,
     updateAvailable = False, updateTag = '''', updateURL = '''',
     focused = focusList, width = 0, height = 0,
     showAttentionView = False, labelHealthCached = False, labelHealthCache = (),
     attentionCached = False, flowMatrixText = '''',
     currentFilter = ''all'', semanticSearchEnabled = False, semanticIndexBuilding = False,
     semanticSearch = None,
     countOpen = 0, countReady = 0, countBlocked = 0, countClosed = 0,
     priorityHints = Map.empty, triageScores = Map.empty, triageReasons = Map.empty,
     unblocksMap = Map.empty, quickWinSet = Map.empty, blockerSet = Map.empty,
     activeRecipe = None,
     timeTravelMode = False, timeTravelDiff = None, timeTravelSince = '''',
     newIssueIDs = None, closedIssueIDs = None, modifiedIssueIDs = None,
     statusMsg = '''', statusIsError = False,
     workspaceMode = False, activeRepos = None,
     alerts = (), alertsCritical = 0, alertsWarning = 0, alertsInfo = 0,
     showAlertsPanel = False, dismissedAlerts = Map.empty,
     sprints = [], selectedSprint = None, sprintViewText = '''',
     labelDrilldownCache = Map.empty \<rparr>"

definition failing_env :: "unit ui_env" where
  "failing_env = \<lparr>
     IsBlocking = (\<lambda>t. t = DepBlocks),
     ExtractRepoPrefix = (\<lambda>_. ''''),
     ToLower = (\<lambda>s. s),
     Sprint_d = (\<lambda>n. replicate n CHR ''I''),
     LoadIssuesFromFile = (\<lambda>_. Inl ''no such file''),
     sprintsPath = (\<lambda>p. p),
     LoadSprintsFromFile = (\<lambda>_. Inl ''no such file''),
     renderSprintDashboard = (\<lambda>_. ''''),
     viewport_SetContent = (\<lambda>_ v. v),
     renderViewport = (\<lambda>_. ()),
     nilCache = cache,
     list_Update = (\<lambda>_ l. (l, None)),
     GenerateInsights = (\<lambda>_ _ _. ()),
     NewInsightsModel = (\<lambda>_ _. \<lparr>extraText = '''', panel = ()\<rparr>),
     insights_SetSize = (\<lambda>_ _ p. p),
     insights_SetTopPicks = (\<lambda>_ p. p),
     insights_SetRecommendations = (\<lambda>_ p. p),
     graph_SetIssues = (\<lambda>_ _ g. g),
     board_SetIssues = (\<lambda>_ b. b),
     NewBoardModel = (\<lambda>_. ()),
     ComputeTriage = (\<lambda>_. ()),
     GenerateRecommendations = (\<lambda>_ _. []),
     computeAlerts = (\<lambda>_ _ _ _. ((), 0, 0, 0)),
     ComputeAllLabelHealth = (\<lambda>_ _ _. ()),
     labelDashboard_SetData = (\<lambda>_ d. d),
     labelHealth_status = (\<lambda>_. ''''),
     applyRecipe_view = (\<lambda>_ _ m. Inr \<lparr>rv_list = list m, rv_semanticSearch = semanticSearch m,
        rv_board = (), rv_graphView = (), rv_currentFilter = currentFilter m,
        rv_viewport = ()\<rparr>) \<rparr>"


definition key_hash :: "issue_key list \<Rightarrow> string" where
  "key_hash ks = concat (map fst ks)"

text \<open>An open issue whose only dependency entry is \<open>nil\<close>, shown under the \<open>ready\<close> filter.\<close>

definition nil_dep_model :: "unit Model" where
  "nil_dep_model =
     empty_model\<lparr>issues := [issue_with_deps ''A'' [None]], currentFilter := ''ready''\<rparr>"

text \<open>A model in time-travel mode.\<close>

definition time_travel_model :: "unit Model" where
  "time_travel_model = empty_model\<lparr>timeTravelMode := True, timeTravelSince := ''HEAD~1''\<rparr>"





section \<open>Properties of the drift configuration\<close>

lemma Validate_DefaultConfig: "Validate DefaultConfig = None"
  by (simp add: Validate_def DefaultConfig_def f64_gt_def)

text \<open>
  Claim C8.  Every configuration that \<open>LoadConfig\<close> returns without an error passes
  \<open>Validate\<close>: the parsed file is validated before it is returned, and the defaults
  returned for a missing file lie within the bounds.
\<close>

theorem LoadConfig_valid:
  "LoadConfig env projectDir = Inr c \<Longrightarrow> Validate c = None"
  by (auto simp: LoadConfig_def Validate_DefaultConfig
      split: read_result.splits sum.splits option.splits)

theorem LoadConfig_valid_witness:
  "LoadConfig \<lparr>Join = concat, ReadFile = (\<lambda>_. ErrNotExist), Unmarshal = (\<lambda>_ c. Inr c)\<rparr> ''proj''
     = Inr DefaultConfig \<and> Validate DefaultConfig = None"
  using LoadConfig_valid [of "\<lparr>Join = concat, ReadFile = (\<lambda>_. ErrNotExist), Unmarshal = (\<lambda>_ c. Inr c)\<rparr>"
      "''proj''" DefaultConfig]
  by (simp add: LoadConfig_def)

section \<open>Properties of the rune conversion and of \<open>truncateString\<close>\<close>

lemma split3:
  fixes r :: nat
  shows "r = (r div 4096) * 4096 + ((r div 64) mod 64) * 64 + r mod 64"
proof -
  define q where "q = r div 64"
  define a where "a = q div 64"
  define b where "b = q mod 64"
  define c where "c = r mod 64"
  have "r div 4096 = a" unfolding a_def q_def by (simp add: div_mult2_eq)
  moreover have "q = a * 64 + b" unfolding a_def b_def by simp
  moreover have "r = q * 64 + c" unfolding q_def c_def by simp
  ultimately have "r = (r div 4096) * 4096 + b * 64 + c" by simp
  then show ?thesis unfolding b_def c_def q_def .
qed

lemma split4:
  fixes r :: nat
  shows "r = (r div 262144) * 262144 + ((r div 4096) mod 64) * 4096
           + ((r div 64) mod 64) * 64 + r mod 64"
proof -
  define q where "q = r div 4096"
  define a where "a = q div 64"
  define b where "b = q mod 64"
  define t where "t = ((r div 64) mod 64) * 64 + r mod 64"
  have "r div 262144 = a" unfolding a_def q_def by (simp add: div_mult2_eq)
  moreover have "q = a * 64 + b" unfolding a_def b_def by simp
  moreover have "r = q * 4096 + t"
    unfolding q_def t_def using split3 [of r] by simp
  ultimately have "r = (r div 262144) * 262144 + b * 4096 + t" by simp
  then show ?thesis unfolding b_def t_def q_def by simp
qed

lemma EncodeRune_length: "0 < length (EncodeRune r)"
  by (simp add: EncodeRune_def)

lemma DecodeRune_Encode1: "r < 0x80 \<Longrightarrow> DecodeRune (EncodeRune r @ rest) = (r, 1)"
  by (simp add: EncodeRune_def)

lemma DecodeRune_bytes2:
  "2 \<le> a \<Longrightarrow> a < 32 \<Longrightarrow> b < 64 \<Longrightarrow>
   DecodeRune ((0xC0 + a) # (0x80 + b) # rest) = (a * 64 + b, 2)"
  by (simp add: cont_def)

lemma DecodeRune_bytes3:
  "a < 16 \<Longrightarrow> b < 64 \<Longrightarrow> c < 64 \<Longrightarrow>
   lo2 (0xE0 + a) \<le> 0x80 + b \<Longrightarrow> 0x80 + b \<le> hi2 (0xE0 + a) \<Longrightarrow>
   DecodeRune ((0xE0 + a) # (0x80 + b) # (0x80 + c) # rest) = (a * 4096 + b * 64 + c, 3)"
  by (simp add: cont_def)

lemma DecodeRune_bytes4:
  "a < 5 \<Longrightarrow> b < 64 \<Longrightarrow> c < 64 \<Longrightarrow> d < 64 \<Longrightarrow>
   lo2 (0xF0 + a) \<le> 0x80 + b \<Longrightarrow> 0x80 + b \<le> hi2 (0xF0 + a) \<Longrightarrow>
   DecodeRune ((0xF0 + a) # (0x80 + b) # (0x80 + c) # (0x80 + d) # rest)
     = (a * 262144 + b * 4096 + c * 64 + d, 4)"
  by (simp add: cont_def)

lemma DecodeRune_Encode2:
  assumes "0x80 \<le> r" "r < 0x800"
  shows "DecodeRune (EncodeRune r @ rest) = (r, 2)"
proof -
  define a where "a = r div 64"
  define b where "b = r mod 64"
  have r: "r = a * 64 + b" unfolding a_def b_def by simp
  have bd: "2 \<le> a" "a < 32" "b < 64" using assms unfolding a_def b_def by auto
  have e: "EncodeRune r = [0xC0 + a, 0x80 + b]"
    using assms by (simp add: EncodeRune_def a_def b_def)
  show ?thesis unfolding e using DecodeRune_bytes2 [OF bd, of rest] r by simp
qed

lemma DecodeRune_Encode3:
  assumes "0x800 \<le> r" "r < 0x10000" "ValidRune r"
  shows "DecodeRune (EncodeRune r @ rest) = (r, 3)"
proof -
  define a where "a = r div 4096"
  define b where "b = (r div 64) mod 64"
  define c where "c = r mod 64"
  have r: "r = a * 4096 + b * 64 + c" unfolding a_def b_def c_def by (rule split3)
  have bd: "a < 16" "b < 64" "c < 64" using assms unfolding a_def b_def c_def by auto
  have e: "EncodeRune r = [0xE0 + a, 0x80 + b, 0x80 + c]"
    using assms by (simp add: EncodeRune_def a_def b_def c_def)
  have lo: "lo2 (0xE0 + a) \<le> 0x80 + b"
  proof (cases "a = 0")
    case True
    then have "32 \<le> b" using r bd assms(1) by arith
    then show ?thesis using True by (simp add: lo2_def)
  next
    case False
    then show ?thesis using bd by (simp add: lo2_def)
  qed
  have hi: "0x80 + b \<le> hi2 (0xE0 + a)"
  proof (cases "a = 13")
    case True
    have "r < 0xD800 \<or> 0xDFFF < r" using assms(3) by (auto simp: ValidRune_def)
    then have "b < 32" using r bd True by arith
    then show ?thesis using True by (simp add: hi2_def)
  next
    case False
    then show ?thesis using bd by (simp add: hi2_def)
  qed
  show ?thesis unfolding e using DecodeRune_bytes3 [OF bd lo hi, of rest] r by simp
qed

lemma DecodeRune_Encode4:
  assumes "0x10000 \<le> r" "ValidRune r"
  shows "DecodeRune (EncodeRune r @ rest) = (r, 4)"
proof -
  define a where "a = r div 262144"
  define b where "b = (r div 4096) mod 64"
  define c where "c = (r div 64) mod 64"
  define d where "d = r mod 64"
  have r: "r = a * 262144 + b * 4096 + c * 64 + d"
    unfolding a_def b_def c_def d_def by (rule split4)
  have rb: "r \<le> 0x10FFFF" using assms by (auto simp: ValidRune_def)
  have bd: "a < 5" "b < 64" "c < 64" "d < 64"
    using rb unfolding a_def b_def c_def d_def by auto
  have e: "EncodeRune r = [0xF0 + a, 0x80 + b, 0x80 + c, 0x80 + d]"
    using assms by (simp add: EncodeRune_def a_def b_def c_def d_def)
  have lo: "lo2 (0xF0 + a) \<le> 0x80 + b"
  proof (cases "a = 0")
    case True
    then have "16 \<le> b" using r bd assms(1) by arith
    then show ?thesis using True by (simp add: lo2_def)
  next
    case False
    then show ?thesis by (simp add: lo2_def)
  qed
  have hi: "0x80 + b \<le> hi2 (0xF0 + a)"
  proof (cases "a = 4")
    case True
    then have "b < 16" using r bd rb by arith
    then show ?thesis using True by (simp add: hi2_def)
  next
    case False
    then show ?thesis using bd by (simp add: hi2_def)
  qed
  show ?thesis unfolding e using DecodeRune_bytes4 [OF bd lo hi, of rest] r by simp
qed

lemma EncodeRune_bytes: "ValidRune r \<Longrightarrow> b \<in> set (EncodeRune r) \<Longrightarrow> b < 256"
  by (auto simp: EncodeRune_def ValidRune_def split: if_splits)

lemma DecodeRune_Encode:
  assumes "ValidRune r"
  shows "DecodeRune (EncodeRune r @ rest) = (r, length (EncodeRune r))"
proof -
  consider "r < 0x80" | "0x80 \<le> r" "r < 0x800" | "0x800 \<le> r" "r < 0x10000" | "0x10000 \<le> r"
    by linarith
  then show ?thesis
  proof cases
    case 1
    then have "length (EncodeRune r) = 1" by (simp add: EncodeRune_def)
    then show ?thesis using 1 by (simp add: DecodeRune_Encode1)
  next
    case 2
    then have "length (EncodeRune r) = 2" by (simp add: EncodeRune_def)
    then show ?thesis using 2 by (simp add: DecodeRune_Encode2)
  next
    case 3
    then have "length (EncodeRune r) = 3" using assms by (simp add: EncodeRune_def)
    then show ?thesis using 3 assms by (simp add: DecodeRune_Encode3)
  next
    case 4
    then have "length (EncodeRune r) = 4" using assms by (simp add: EncodeRune_def)
    then show ?thesis using 4 assms by (simp add: DecodeRune_Encode4)
  qed
qed

lemma decode_runes_Encode:
  assumes "ValidRune r"
  shows "decode_runes (EncodeRune r @ rest) = r # decode_runes rest"
proof -
  obtain b bs where e: "EncodeRune r = b # bs"
    using EncodeRune_length [of r] by (cases "EncodeRune r") auto
  have "DecodeRune (b # bs @ rest) = (r, Suc (length bs))"
    using DecodeRune_Encode [OF assms, of rest] e by simp
  then show ?thesis using e by simp
qed

lemma decode_runes_encode_runes:
  "list_all ValidRune rs \<Longrightarrow> decode_runes (encode_runes rs @ rest) = rs @ decode_runes rest"
  by (induction rs) (simp_all add: encode_runes_def decode_runes_Encode)

lemma ValidRune_RuneError: "ValidRune RuneError"
  by (simp add: ValidRune_def RuneError_def)

lemma hi2_le: "hi2 b0 \<le> 0xBF"
  by (simp add: hi2_def)

lemma lo2_ge: "0x80 \<le> lo2 b0"
  by (simp add: lo2_def)

text \<open>The shapes of a decoding step, one per branch of \<open>DecodeRune\<close>.\<close>

lemma DecodeRune_form:
  "DecodeRune bs = (RuneError, 0) \<or> DecodeRune bs = (RuneError, 1)
   \<or> (\<exists>b0. b0 < 0x80 \<and> DecodeRune bs = (b0, 1))
   \<or> (\<exists>b0 b1. 0xC2 \<le> b0 \<and> b0 \<le> 0xDF \<and> cont b1
         \<and> DecodeRune bs = ((b0 - 0xC0) * 64 + (b1 - 0x80), 2))
   \<or> (\<exists>b0 b1 b2. 0xE0 \<le> b0 \<and> b0 \<le> 0xEF \<and> lo2 b0 \<le> b1 \<and> b1 \<le> hi2 b0 \<and> cont b2
         \<and> DecodeRune bs = ((b0 - 0xE0) * 4096 + (b1 - 0x80) * 64 + (b2 - 0x80), 3))
   \<or> (\<exists>b0 b1 b2 b3. 0xF0 \<le> b0 \<and> b0 \<le> 0xF4 \<and> lo2 b0 \<le> b1 \<and> b1 \<le> hi2 b0 \<and> cont b2
         \<and> cont b3
         \<and> DecodeRune bs = ((b0 - 0xF0) * 262144 + (b1 - 0x80) * 4096
                                + (b2 - 0x80) * 64 + (b3 - 0x80), 4))"
proof (cases bs)
  case Nil
  then show ?thesis by simp
next
  case (Cons b0 bs')
  show ?thesis
    unfolding Cons DecodeRune.simps
    by (simp split: list.split) blast
qed

lemma valid2:
  assumes "0xC2 \<le> b0" "b0 \<le> 0xDF" "cont b1"
  shows "ValidRune ((b0 - 0xC0) * 64 + (b1 - 0x80))"
proof -
  define a where "a = b0 - 0xC0"
  define x where "x = b1 - 0x80"
  have "a < 32" "x < 64" using assms unfolding a_def x_def cont_def by auto
  then have "a * 64 + x < 0xD800" by arith
  then show ?thesis unfolding a_def x_def ValidRune_def by simp
qed

lemma valid3:
  assumes "0xE0 \<le> b0" "b0 \<le> 0xEF" "lo2 b0 \<le> b1" "b1 \<le> hi2 b0" "cont b2"
  shows "ValidRune ((b0 - 0xE0) * 4096 + (b1 - 0x80) * 64 + (b2 - 0x80))"
proof -
  define a where "a = b0 - 0xE0"
  define x where "x = b1 - 0x80"
  define y where "y = b2 - 0x80"
  have b1: "b1 \<le> 0xBF" using assms(4) hi2_le [of b0] by linarith
  have bd: "a < 16" "x < 64" "y < 64" using assms(1,2,5) b1 unfolding a_def x_def y_def cont_def
    by auto
  have "a = 13 \<Longrightarrow> b0 = 0xED" using assms(1) unfolding a_def by simp
  then have s: "a = 13 \<Longrightarrow> x < 32" using assms(4) unfolding x_def hi2_def by simp
  have "a * 4096 + x * 64 + y < 0xD800 \<or> 0xDFFF < a * 4096 + x * 64 + y"
  proof -
    consider "a < 13" | "a = 13" | "13 < a" by linarith
    then show ?thesis
    proof cases
      case 1 then show ?thesis using bd by arith
    next
      case 2 then show ?thesis using bd s by simp
    next
      case 3 then show ?thesis by arith
    qed
  qed
  moreover have "a * 4096 + x * 64 + y \<le> 0x10FFFF" using bd by arith
  ultimately show ?thesis unfolding a_def x_def y_def ValidRune_def by simp
qed

lemma valid4:
  assumes "0xF0 \<le> b0" "b0 \<le> 0xF4" "lo2 b0 \<le> b1" "b1 \<le> hi2 b0" "cont b2" "cont b3"
  shows "ValidRune ((b0 - 0xF0) * 262144 + (b1 - 0x80) * 4096 + (b2 - 0x80) * 64 + (b3 - 0x80))"
proof -
  define a where "a = b0 - 0xF0"
  define x where "x = b1 - 0x80"
  define y where "y = b2 - 0x80"
  define z where "z = b3 - 0x80"
  have b1: "b1 \<le> 0xBF" using assms(4) hi2_le [of b0] by linarith
  have bd: "a < 5" "x < 64" "y < 64" "z < 64"
    using assms(1,2,5,6) b1 unfolding a_def x_def y_def z_def cont_def by auto
  have "a = 4 \<Longrightarrow> b0 = 0xF4" using assms(1) unfolding a_def by simp
  then have s: "a = 4 \<Longrightarrow> x < 16" using assms(4) unfolding x_def hi2_def by simp
  have "a = 0 \<Longrightarrow> b0 = 0xF0" using assms(1) unfolding a_def by simp
  then have t: "a = 0 \<Longrightarrow> 16 \<le> x" using assms(3) unfolding x_def lo2_def by simp
  have "0xDFFF < a * 262144 + x * 4096 + y * 64 + z"
  proof (cases "a = 0")
    case True then show ?thesis using t by simp
  next
    case False then show ?thesis by arith
  qed
  moreover have "a * 262144 + x * 4096 + y * 64 + z \<le> 0x10FFFF"
  proof (cases "a = 4")
    case True then show ?thesis using s bd by simp
  next
    case False then show ?thesis using bd by arith
  qed
  ultimately show ?thesis unfolding a_def x_def y_def z_def ValidRune_def by simp
qed

lemma DecodeRune_ValidRune: "ValidRune (fst (DecodeRune bs))"
  using DecodeRune_form [of bs]
  by (auto simp: ValidRune_RuneError valid2 valid3 valid4) (simp add: ValidRune_def)

lemma decode_runes_valid: "list_all ValidRune (decode_runes bs)"
proof (induction bs rule: decode_runes.induct)
  case 1
  then show ?case by simp
next
  case (2 b0 bs)
  obtain r w where d: "DecodeRune (b0 # bs) = (r, w)" by (cases "DecodeRune (b0 # bs)")
  have "ValidRune r" using DecodeRune_ValidRune [of "b0 # bs"] d by simp
  then show ?case using 2 d by simp
qed

lemma encode_runes_bytes:
  "list_all ValidRune rs \<Longrightarrow> b \<in> set (encode_runes rs) \<Longrightarrow> b < 256"
  by (induction rs) (auto simp: encode_runes_def dest: EncodeRune_bytes)

lemma of_char_char_of_bytes:
  fixes bs :: "nat list"
  shows "(\<And>b. b \<in> set bs \<Longrightarrow> b < 256) \<Longrightarrow> map of_char (map char_of bs :: string) = bs"
  by (induction bs) simp_all

lemma encode_runes_append: "encode_runes (xs @ ys) = encode_runes xs @ encode_runes ys"
  by (simp add: encode_runes_def)

lemma string_of_append: "string_of (xs @ ys) = string_of xs @ string_of ys"
  by (simp add: string_of_def encode_runes_append)

lemma runes_of_string_of:
  assumes "list_all ValidRune rs"
  shows "runes_of (string_of rs) = rs"
proof -
  have "map of_char (string_of rs) = encode_runes rs"
    unfolding string_of_def using encode_runes_bytes [OF assms]
    by (rule of_char_char_of_bytes)
  then show ?thesis
    using decode_runes_encode_runes [OF assms, of "[]"] by (simp add: runes_of_def)
qed

lemma ValidRune_ellipsis: "ValidRune 0x2026"
  by (simp add: ValidRune_def)

lemma ellipsis_string_of: "ellipsis = string_of [0x2026]"
  by (simp add: ellipsis_def string_of_def encode_runes_def EncodeRune_def ValidRune_def)

lemma runes_of_valid: "list_all ValidRune (runes_of s)"
  by (simp add: runes_of_def decode_runes_valid)

lemma list_all_take: "list_all P xs \<Longrightarrow> list_all P (take k xs)"
  by (auto simp: list_all_iff dest: in_set_takeD)

lemma runes_of_take: "runes_of (string_of (take k (runes_of s))) = take k (runes_of s)"
  by (rule runes_of_string_of) (rule list_all_take, rule runes_of_valid)

lemma runes_of_take_ellipsis:
  "runes_of (string_of (take k (runes_of s)) @ ellipsis) = take k (runes_of s) @ [0x2026]"
proof -
  have "list_all ValidRune (take k (runes_of s) @ [0x2026])"
    using list_all_take [OF runes_of_valid, of k s] ValidRune_ellipsis by simp
  then have "runes_of (string_of (take k (runes_of s) @ [0x2026])) = take k (runes_of s) @ [0x2026]"
    by (rule runes_of_string_of)
  then show ?thesis by (simp add: string_of_append ellipsis_string_of)
qed

lemma runes_of_Nil: "runes_of s = [] \<Longrightarrow> s = []"
  by (cases s) (simp_all add: runes_of_def split: prod.splits)

lemma truncateString_runes_of:
  "runes_of (truncateString s maxLen) =
    (if maxLen \<le> 0 then []
     else if int (length (runes_of s)) \<le> maxLen then runes_of s
     else if maxLen \<le> 3 then take (nat maxLen) (runes_of s)
     else take (nat (maxLen - 1)) (runes_of s) @ [0x2026])"
  by (simp add: truncateString_def Let_def runes_of_take runes_of_take_ellipsis)
    (simp add: runes_of_def)

text \<open>
  Claim C10.  \<open>truncateString s maxLen\<close> has at most \<open>max maxLen 0\<close> runes; a string of at
  most \<open>maxLen\<close> runes is returned as it is; the runes of the result are the leading runes
  of \<open>s\<close>, each one whole, followed by the ellipsis when more than three were asked for and
  some were cut; and in a well-formed UTF-8 string the cut falls between the encodings of
  two runes, never inside one.
\<close>

theorem truncateString_bounded:
  "length (runes_of (truncateString s maxLen)) \<le> nat (max maxLen 0)
   \<and> (int (length (runes_of s)) \<le> maxLen \<longrightarrow> truncateString s maxLen = s)
   \<and> runes_of (truncateString s maxLen) =
       (if maxLen \<le> 0 then []
        else if int (length (runes_of s)) \<le> maxLen then runes_of s
        else if maxLen \<le> 3 then take (nat maxLen) (runes_of s)
        else take (nat (maxLen - 1)) (runes_of s) @ [0x2026])
   \<and> (string_of (runes_of s) = s \<and> 0 < maxLen \<and> maxLen < int (length (runes_of s)) \<longrightarrow>
        (let k = (if maxLen \<le> 3 then nat maxLen else nat (maxLen - 1)) in
          s = string_of (take k (runes_of s)) @ string_of (drop k (runes_of s))
          \<and> truncateString s maxLen
             = string_of (take k (runes_of s)) @ (if maxLen \<le> 3 then [] else ellipsis)))"
proof (intro conjI impI)
  show "length (runes_of (truncateString s maxLen)) \<le> nat (max maxLen 0)"
    unfolding truncateString_runes_of by auto
next
  assume a: "int (length (runes_of s)) \<le> maxLen"
  show "truncateString s maxLen = s"
  proof (cases "maxLen \<le> 0")
    case True
    then have "length (runes_of s) = 0" using a by linarith
    then have "runes_of s = []" by simp
    then have "s = []" by (rule runes_of_Nil)
    then show ?thesis using True by (simp add: truncateString_def)
  next
    case False
    then show ?thesis using a by (simp add: truncateString_def)
  qed
next
  show "runes_of (truncateString s maxLen) =
       (if maxLen \<le> 0 then []
        else if int (length (runes_of s)) \<le> maxLen then runes_of s
        else if maxLen \<le> 3 then take (nat maxLen) (runes_of s)
        else take (nat (maxLen - 1)) (runes_of s) @ [0x2026])"
    by (rule truncateString_runes_of)
next
  assume a: "string_of (runes_of s) = s \<and> 0 < maxLen \<and> maxLen < int (length (runes_of s))"
  have sp: "s = string_of (take k (runes_of s)) @ string_of (drop k (runes_of s))" for k
    using a string_of_append [of "take k (runes_of s)" "drop k (runes_of s)"] by simp
  show "let k = (if maxLen \<le> 3 then nat maxLen else nat (maxLen - 1)) in
          s = string_of (take k (runes_of s)) @ string_of (drop k (runes_of s))
          \<and> truncateString s maxLen
             = string_of (take k (runes_of s)) @ (if maxLen \<le> 3 then [] else ellipsis)"
    unfolding Let_def
  proof (intro conjI)
    show "s = string_of (take (if maxLen \<le> 3 then nat maxLen else nat (maxLen - 1)) (runes_of s))
        @ string_of (drop (if maxLen \<le> 3 then nat maxLen else nat (maxLen - 1)) (runes_of s))"
      by (rule sp)
    show "truncateString s maxLen =
        string_of (take (if maxLen \<le> 3 then nat maxLen else nat (maxLen - 1)) (runes_of s))
        @ (if maxLen \<le> 3 then [] else ellipsis)"
      using a by (simp add: truncateString_def Let_def)
  qed
qed

lemma runes_hello: "runes_of hello = [0x68, 0xE9, 0x6C, 0x6C, 0x6F]"
  by (simp add: hello_def runes_of_def cont_def)

lemma string_hello: "string_of (runes_of hello) = hello"
  unfolding runes_hello by (simp add: hello_def string_of_def encode_runes_def EncodeRune_def)

theorem truncateString_bounded_witness:
  "string_of (runes_of hello) = hello \<and> (0::int) < 2 \<and> 2 < int (length (runes_of hello))
   \<and> truncateString hello 2 = map char_of [0x68, 0xC3, 0xA9 :: nat]
   \<and> length (runes_of (truncateString hello 2)) \<le> 2
   \<and> int (length (runes_of hello)) \<le> 5 \<and> truncateString hello 5 = hello"
proof -
  have h1: "string_of (runes_of hello) = hello" by (rule string_hello)
  have h2: "(0::int) < 2 \<and> 2 < int (length (runes_of hello))" by (simp add: runes_hello)
  have t: "string_of (take 2 (runes_of hello)) = map char_of [0x68, 0xC3, 0xA9 :: nat]"
    unfolding runes_hello by (simp add: string_of_def encode_runes_def EncodeRune_def)
  have l: "int (length (runes_of hello)) \<le> 5" by (simp add: runes_hello)
  have "truncateString hello 2 = string_of (take 2 (runes_of hello))"
    using truncateString_bounded [of hello 2] h1 h2 by (simp add: Let_def)
  moreover have "length (runes_of (truncateString hello 2)) \<le> 2"
    using truncateString_bounded [of hello 2] by simp
  moreover have "truncateString hello 5 = hello"
    using truncateString_bounded [of hello 5] l by simp
  ultimately show ?thesis using h1 h2 t l by simp
qed

section \<open>Properties of the critical path and of cycle detection\<close>

lemma path_ok_to_last_all:
  "path_ok es (xs @ [y]) \<Longrightarrow> \<forall>x \<in> set xs. (x, y) \<in> (set es)\<^sup>+"
proof (induction xs)
  case Nil
  then show ?case by simp
next
  case (Cons a xs)
  show ?case
  proof (cases xs)
    case Nil
    then show ?thesis using Cons.prems by auto
  next
    case (Cons b xs')
    then have e: "(a, b) \<in> set es" and p: "path_ok es (xs @ [y])"
      using Cons.prems(1) by simp_all
    have ih: "\<forall>x \<in> set xs. (x, y) \<in> (set es)\<^sup>+" by (rule Cons.IH [OF p])
    then have "(b, y) \<in> (set es)\<^sup>+" using Cons by simp
    then have "(a, y) \<in> (set es)\<^sup>+" using e by (rule trancl_into_trancl2 [rotated])
    then show ?thesis using ih by auto
  qed
qed

lemma path_ok_to_last:
  "path_ok es (xs @ [y]) \<Longrightarrow> x \<in> set xs \<Longrightarrow> (x, y) \<in> (set es)\<^sup>+"
  using path_ok_to_last_all by blast

lemma path_ok_from_first:
  "path_ok es (x # xs) \<Longrightarrow> v \<in> set xs \<Longrightarrow> (x, v) \<in> (set es)\<^sup>+"
proof (induction xs arbitrary: x)
  case Nil
  then show ?case by simp
next
  case (Cons b xs)
  then have e: "(x, b) \<in> set es" and p: "path_ok es (b # xs)" by simp_all
  show ?case
  proof (cases "v = b")
    case True
    then show ?thesis using e by auto
  next
    case False
    then have "v \<in> set xs" using Cons.prems(2) by simp
    then have "(b, v) \<in> (set es)\<^sup>+" by (rule Cons.IH [OF p])
    then show ?thesis using e by (rule trancl_into_trancl2 [rotated])
  qed
qed

lemma cycle_mutual:
  assumes "is_cycle es c" "u \<in> set c" "v \<in> set c"
  shows "(u, v) \<in> (set es)\<^sup>+"
proof -
  obtain h t where c: "c = h # t" and p: "path_ok es (c @ [h])"
    using assms(1) by (auto simp: is_cycle_def split: list.splits)
  have 1: "(u, h) \<in> (set es)\<^sup>+" using path_ok_to_last [OF p assms(2)] .
  have "path_ok es (h # (t @ [h]))" using p c by simp
  moreover have "v \<in> set (t @ [h])" using assms(3) c by auto
  ultimately have "(h, v) \<in> (set es)\<^sup>+" by (rule path_ok_from_first)
  with 1 show ?thesis by (rule trancl_trans)
qed

lemma path_ok_next:
  "path_ok es (xs @ [y]) \<Longrightarrow> v \<in> set xs \<Longrightarrow> \<exists>s \<in> insert y (set xs). (v, s) \<in> set es"
proof (induction xs)
  case Nil
  then show ?case by simp
next
  case (Cons a xs)
  show ?case
  proof (cases xs)
    case Nil
    then show ?thesis using Cons.prems by auto
  next
    case (Cons b xs')
    then have e: "(a, b) \<in> set es" and p: "path_ok es (xs @ [y])"
      using Cons.prems(1) by simp_all
    show ?thesis
    proof (cases "v = a")
      case True
      then show ?thesis using e Cons by auto
    next
      case False
      then have "v \<in> set xs" using Cons.prems(2) by simp
      then show ?thesis using Cons.IH [OF p] by auto
    qed
  qed
qed

lemma cycle_has_succ:
  assumes "is_cycle es c" "v \<in> set c"
  shows "\<exists>s \<in> set c. (v, s) \<in> set es"
proof -
  obtain h t where c: "c = h # t" and p: "path_ok es (c @ [h])"
    using assms(1) by (auto simp: is_cycle_def split: list.splits)
  have "\<exists>s \<in> insert h (set c). (v, s) \<in> set es" using path_ok_next [OF p assms(2)] .
  then show ?thesis using c by auto
qed

subsection \<open>Heights\<close>

lemma height_round_None:
  assumes "\<forall>v \<in> C. \<exists>s \<in> C. (v, s) \<in> set es" and "\<forall>v \<in> C. h v = None" and "v \<in> C"
  shows "height_round es vs h v = None"
proof -
  obtain s where s: "s \<in> C" "(v, s) \<in> set es" using assms(1,3) by blast
  then have "s \<in> set (succs es v)" by (force simp: succs_def)
  moreover have "\<not> known h s" using s(1) assms(2) by (simp add: known_def)
  ultimately have "\<not> list_all (known h) (succs es v)" by (auto simp: list_all_iff)
  then show ?thesis using assms(2,3) by (simp add: height_round_def ready_def)
qed

lemma height_rounds_None:
  assumes "\<forall>v \<in> C. \<exists>s \<in> C. (v, s) \<in> set es"
  shows "\<forall>v \<in> C. h v = None \<Longrightarrow> \<forall>v \<in> C. height_rounds k es vs h v = None"
proof (induction k arbitrary: h)
  case 0
  then show ?case by simp
next
  case (Suc k)
  have "\<forall>v \<in> C. height_round es vs h v = None"
    using height_round_None [OF assms Suc.prems] by blast
  then show ?case using Suc.IH by simp
qed

lemma cycle_heights_None:
  assumes "is_cycle (blocks_edges iss) c" "v \<in> set c"
  shows "heights iss v = None"
proof -
  have "\<forall>v \<in> set c. \<exists>s \<in> set c. (v, s) \<in> set (blocks_edges iss)"
    using cycle_has_succ [OF assms(1)] by blast
  then have "\<forall>v \<in> set c. height_rounds (length (nodes iss)) (blocks_edges iss)
      (nodes iss) Map.empty v = None"
    by (rule height_rounds_None) simp
  then show ?thesis using assms(2) by (simp add: heights_def)
qed

lemma blocks_edges_nodes:
  "(a, b) \<in> set (blocks_edges iss) \<Longrightarrow> a \<in> set (nodes iss) \<and> b \<in> set (nodes iss)"
  by (auto simp: blocks_edges_def validated_def)

lemma blocks_edges_rev:
  "(a, b) \<in> set (blocks_edges iss) \<Longrightarrow> (b, a) \<in> set (edges iss)"
  by (auto simp: blocks_edges_def edges_def)

lemma cycle_nodes:
  assumes "is_cycle (blocks_edges iss) c" "v \<in> set c"
  shows "v \<in> set (nodes iss)"
  using cycle_has_succ [OF assms] blocks_edges_nodes by blast

lemma cycle_HasCycle:
  assumes "is_cycle (blocks_edges iss) c"
  shows "HasCycle iss"
proof -
  obtain v where v: "v \<in> set c" using assms by (auto simp: is_cycle_def split: list.splits)
  show ?thesis
    unfolding HasCycle_def
    using cycle_nodes [OF assms v] cycle_heights_None [OF assms v] by blast
qed

lemma cycle_sentinel:
  assumes "is_cycle (blocks_edges iss) c" "v \<in> set c"
  shows "CriticalPathHeight iss v = sentinel"
  using cycle_heights_None [OF assms] by (simp add: CriticalPathHeight_def)

lemma cycle_not_reported:
  assumes "is_cycle (blocks_edges iss) c" "v \<in> set c"
  shows "v \<notin> fst ` set (LongestPathReport iss)"
  using cycle_sentinel [OF assms] by (auto simp: LongestPathReport_def)

subsection \<open>Reachable sets\<close>

lemma succs_iff: "s \<in> set (succs es v) \<longleftrightarrow> (v, s) \<in> set es"
  by (force simp: succs_def)

lemma frontier_set:
  "set (frontier es S) = {v. \<exists>s \<in> set S. (s, v) \<in> set es} - set S"
  by (auto simp: frontier_def succs_iff)

lemma frontier_Nil_closed:
  assumes "frontier es S = []" "s \<in> set S" "(s, v) \<in> (set es)\<^sup>+"
  shows "v \<in> set S"
  using assms(3,2)
proof (induction rule: trancl_induct)
  case (base y)
  have "y \<notin> set (frontier es S)" using assms(1) by simp
  then show ?case using base by (auto simp: frontier_set)
next
  case (step y z)
  have "z \<notin> set (frontier es S)" using assms(1) by simp
  then show ?case using step by (auto simp: frontier_set)
qed

lemma closure_set:
  "set (closure es S) = set S \<union> {v. \<exists>s \<in> set S. (s, v) \<in> (set es)\<^sup>+}"
proof (induction es S rule: closure.induct)
  case (1 es S)
  show ?case
  proof (cases "frontier es S = []")
    case True
    then have "{v. \<exists>s \<in> set S. (s, v) \<in> (set es)\<^sup>+} \<subseteq> set S"
      using frontier_Nil_closed by blast
    then show ?thesis using True by (subst closure.simps) auto
  next
    case False
    let ?F = "frontier es S"
    have ih: "set (closure es (S @ ?F)) =
        set (S @ ?F) \<union> {v. \<exists>s \<in> set (S @ ?F). (s, v) \<in> (set es)\<^sup>+}"
      using 1 False by simp
    have F1: "set ?F \<subseteq> {v. \<exists>s \<in> set S. (s, v) \<in> (set es)\<^sup>+}"
      by (auto simp: frontier_set)
    have F2: "{v. \<exists>s \<in> set ?F. (s, v) \<in> (set es)\<^sup>+}
        \<subseteq> {v. \<exists>s \<in> set S. (s, v) \<in> (set es)\<^sup>+}"
    proof
      fix v assume "v \<in> {v. \<exists>s \<in> set ?F. (s, v) \<in> (set es)\<^sup>+}"
      then obtain f where f: "f \<in> set ?F" "(f, v) \<in> (set es)\<^sup>+" by blast
      then obtain s where s: "s \<in> set S" "(s, f) \<in> set es" by (auto simp: frontier_set)
      have "(s, v) \<in> (set es)\<^sup>+" using s(2) f(2) by (rule trancl_into_trancl2)
      then show "v \<in> {v. \<exists>s \<in> set S. (s, v) \<in> (set es)\<^sup>+}" using s(1) by blast
    qed
    have "set (closure es S) = set (closure es (S @ ?F))"
      using False by (subst closure.simps) simp
    also have "\<dots> = set S \<union> {v. \<exists>s \<in> set S. (s, v) \<in> (set es)\<^sup>+}"
      unfolding ih using F1 F2 by auto
    finally show ?thesis .
  qed
qed

lemma reach_set: "set (reach es v) = {u. (v, u) \<in> (set es)\<^sup>+}"
proof -
  have "set (reach es v) = {s. (v, s) \<in> set es}
      \<union> {u. \<exists>s. (v, s) \<in> set es \<and> (s, u) \<in> (set es)\<^sup>+}"
    by (auto simp: reach_def closure_set succs_iff)
  also have "\<dots> = {u. (v, u) \<in> (set es)\<^sup>+}"
    by (auto intro: trancl_into_trancl2 elim: converse_tranclE)
  finally show ?thesis .
qed


lemma scc_filter: "scc es vs v = filter (mutual es v) vs"
  unfolding scc_def by (rule filter_cong [OF refl]) (simp add: reach_set mutual_def)

lemma mutual_sym: "mutual es v u \<Longrightarrow> mutual es u v"
  by (auto simp: mutual_def)

lemma mutual_trans: "mutual es v u \<Longrightarrow> mutual es u w \<Longrightarrow> mutual es v w"
  unfolding mutual_def by (meson trancl_trans)

lemma scc_eq:
  assumes "mutual es v u"
  shows "scc es vs u = scc es vs v"
proof -
  have "mutual es u w = mutual es v w" for w
    using assms mutual_sym mutual_trans by blast
  then have "mutual es u = mutual es v" by (rule ext)
  then show ?thesis by (simp add: scc_filter)
qed

lemma cycle_in_Cycles:
  assumes cyc: "is_cycle bes c"
    and rev: "\<And>a b. (a, b) \<in> set bes \<Longrightarrow> (b, a) \<in> set es"
    and nod: "set c \<subseteq> set vs"
  shows "\<exists>v \<in> set vs. is_cycle_component es vs v \<and> set c \<subseteq> set (scc es vs v)"
proof -
  obtain h t where c: "c = h # t" and p: "path_ok bes (c @ [h])"
    using cyc by (auto simp: is_cycle_def split: list.splits)
  have sub: "set bes \<subseteq> (set es)\<inverse>" using rev by auto
  have mut: "(u, v) \<in> (set es)\<^sup>+" if "u \<in> set c" "v \<in> set c" for u v
  proof -
    have "(v, u) \<in> (set bes)\<^sup>+" using cycle_mutual [OF cyc that(2) that(1)] .
    then have "(v, u) \<in> ((set es)\<inverse>)\<^sup>+" using sub trancl_mono by blast
    then show ?thesis by (simp add: trancl_converse)
  qed
  have hvs: "h \<in> set vs" using nod c by simp
  have cm: "\<forall>u \<in> set c. mutual es h u" using mut c by (auto simp: mutual_def)
  have hin: "h \<in> set (scc es vs h)" using hvs by (simp add: scc_filter mutual_def)
  then obtain v0 rest where comp: "scc es vs h = v0 # rest" by (cases "scc es vs h") auto
  then have "v0 \<in> set (scc es vs h)" by simp
  then have v0: "v0 \<in> set vs" "mutual es h v0" by (simp_all add: scc_filter)
  have eq: "scc es vs v0 = scc es vs h" by (rule scc_eq [OF v0(2)])
  have csub: "set c \<subseteq> set (scc es vs v0)"
    unfolding eq using cm nod by (auto simp: scc_filter)
  have "rest \<noteq> [] \<or> (v0, v0) \<in> set es"
  proof (cases "rest = []")
    case True
    then have "set c \<subseteq> {v0}" using csub eq comp by simp
    then have all: "\<forall>x \<in> set c. x = v0" by blast
    then have h0: "h = v0" using c by simp
    have "(h, h) \<in> set bes"
    proof (cases t)
      case Nil
      then show ?thesis using p c by simp
    next
      case (Cons b t')
      then have "b = v0" using all c by simp
      then show ?thesis using p c Cons h0 by simp
    qed
    then show ?thesis using rev h0 by blast
  next
    case False
    then show ?thesis by simp
  qed
  then have "is_cycle_component es vs v0"
    unfolding is_cycle_component_def eq comp by simp
  then show ?thesis using v0(1) csub by blast
qed

lemma cycle_reported:
  assumes "is_cycle (blocks_edges iss) c"
  shows "\<exists>comp \<in> set (Cycles iss). set c \<subseteq> set comp"
proof -
  have nod: "set c \<subseteq> set (nodes iss)" using cycle_nodes [OF assms] by blast
  obtain v where v: "v \<in> set (nodes iss)"
      "is_cycle_component (edges iss) (nodes iss) v"
      "set c \<subseteq> set (scc (edges iss) (nodes iss) v)"
    using cycle_in_Cycles [OF assms blocks_edges_rev nod] by blast
  then have "scc (edges iss) (nodes iss) v \<in> set (Cycles iss)"
    by (simp add: Cycles_def)
  then show ?thesis using v(3) by blast
qed

lemma nodes_cycle_AB: "nodes cycle_AB = [''A'', ''B'']"
  by (simp add: nodes_def cycle_AB_def issue_with_deps_def)

lemma validated_cycle_AB:
  "validated cycle_AB = [\<lparr>IssueID = ''A'', DependsOnID = ''B'', Type = DepBlocks\<rparr>,
     \<lparr>IssueID = ''B'', DependsOnID = ''A'', Type = DepBlocks\<rparr>]"
  unfolding validated_def nodes_cycle_AB
  by (simp add: all_deps_def cycle_AB_def issue_with_deps_def List.map_filter_simps)

lemma edges_cycle_AB: "edges cycle_AB = [(''A'', ''B''), (''B'', ''A'')]"
  by (simp add: edges_def validated_cycle_AB)

lemma blocks_edges_cycle_AB: "blocks_edges cycle_AB = [(''B'', ''A''), (''A'', ''B'')]"
  by (simp add: blocks_edges_def validated_cycle_AB)

lemma is_cycle_AB: "is_cycle (blocks_edges cycle_AB) [''A'', ''B'']"
  by (simp add: blocks_edges_cycle_AB is_cycle_def)

lemma Cycles_cycle_AB: "Cycles cycle_AB = [[''A'', ''B'']]"
  by code_simp

text \<open>
  Claim C7.  When the \<open>blocks\<close> edges contain a cycle, the height computation (a total
  function: it runs one round per node) sets \<open>HasCycle\<close>, every member of the cycle gets
  the sentinel height and is left out of the longest-path report, and \<open>Cycles\<close>
  (total as well, by the termination proof of \<open>closure\<close>) reports a component that
  holds the whole cycle.  For the issue set in which A blocks B and B blocks A,
  \<open>Cycles\<close> is the one cycle of A and B, and both heights are the sentinel.
\<close>

theorem cycle_marked_and_reported:
  assumes "is_cycle (blocks_edges iss) c"
  shows "HasCycle iss
    \<and> (\<forall>v \<in> set c. CriticalPathHeight iss v = sentinel
          \<and> v \<notin> fst ` set (LongestPathReport iss))
    \<and> (\<exists>comp \<in> set (Cycles iss). set c \<subseteq> set comp)
    \<and> Cycles cycle_AB = [[''A'', ''B'']]
    \<and> CriticalPathHeight cycle_AB ''A'' = sentinel
    \<and> CriticalPathHeight cycle_AB ''B'' = sentinel"
proof (intro conjI ballI)
  show "HasCycle iss" by (rule cycle_HasCycle [OF assms])
  show "CriticalPathHeight iss v = sentinel" if "v \<in> set c" for v
    by (rule cycle_sentinel [OF assms that])
  show "v \<notin> fst ` set (LongestPathReport iss)" if "v \<in> set c" for v
    by (rule cycle_not_reported [OF assms that])
  show "\<exists>comp \<in> set (Cycles iss). set c \<subseteq> set comp" by (rule cycle_reported [OF assms])
  show "Cycles cycle_AB = [[''A'', ''B'']]" by (rule Cycles_cycle_AB)
  show "CriticalPathHeight cycle_AB ''A'' = sentinel"
    by (rule cycle_sentinel [OF is_cycle_AB]) simp
  show "CriticalPathHeight cycle_AB ''B'' = sentinel"
    by (rule cycle_sentinel [OF is_cycle_AB]) simp
qed

theorem cycle_marked_and_reported_witness:
  "is_cycle (blocks_edges cycle_AB) [''A'', ''B'']
   \<and> HasCycle cycle_AB
   \<and> CriticalPathHeight cycle_AB ''A'' = sentinel
   \<and> (\<exists>comp \<in> set (Cycles cycle_AB). set [''A'', ''B''] \<subseteq> set comp)"
  using cycle_marked_and_reported [OF is_cycle_AB] is_cycle_AB by simp

section \<open>Properties of the fingerprint and of the result store\<close>

lemma sort_mset_eq:
  fixes xs ys :: "'a::linorder list"
  assumes "mset xs = mset ys"
  shows "sort xs = sort ys"
  by (rule properties_for_sort) (simp_all add: assms)

lemma Fingerprint_keys_eq:
  assumes "mset (map issue_key xs) = mset (map issue_key ys)"
  shows "Fingerprint hash xs = Fingerprint hash ys"
proof -
  have "sort (map issue_key xs) = sort (map issue_key ys)" using assms by (rule sort_mset_eq)
  then show ?thesis by (simp add: Fingerprint_def)
qed

lemma Fingerprint_perm:
  assumes "mset xs = mset ys"
  shows "Fingerprint hash xs = Fingerprint hash ys"
proof -
  have "mset (map issue_key xs) = mset (map issue_key ys)"
    using assms by (metis mset_map)
  then show ?thesis by (rule Fingerprint_keys_eq)
qed

text \<open>
  Claim C6.  Two issue lists with the same issues up to order (more generally, with the
  same ids, statuses, priorities and dependency lists up to order) have the same
  fingerprint, for every hash function.
\<close>

theorem Fingerprint_order_independent:
  "mset (map issue_key xs) = mset (map issue_key ys) \<Longrightarrow> Fingerprint hash xs = Fingerprint hash ys"
  by (rule Fingerprint_keys_eq)

theorem Fingerprint_order_independent_witness:
  "mset (map issue_key cycle_AB) = mset (map issue_key (rev cycle_AB))
   \<and> Fingerprint (\<lambda>ks. concat (map fst ks)) cycle_AB
     = Fingerprint (\<lambda>ks. concat (map fst ks)) (rev cycle_AB)"
proof -
  have h: "mset (map issue_key cycle_AB) = mset (map issue_key (rev cycle_AB))"
    by (simp add: rev_map [symmetric])
  show ?thesis using Fingerprint_order_independent [OF h] h by simp
qed

lemma GetScore_unpublished: "\<not> published w p \<Longrightarrow> GetScore k w p i = 0"
  by (simp add: published_def GetScore_def split: option.splits)

lemma AnalyzeAsync_unpublished:
  "AnalyzeAsync w iss = (w', p) \<Longrightarrow> \<not> published w' p"
  by (auto simp: AnalyzeAsync_def Let_def published_def)

text \<open>
  Claim C4.  The handle that \<open>AnalyzeAsync\<close> returns is not yet published, and on a
  handle that is not published every per-node accessor returns 0.  An accessor is a total
  function of the store with a plain score as result: it has no error to return and does
  not wait for the background computation (only \<open>WaitForPhase2\<close> does).
\<close>

theorem accessors_default_before_publish:
  "(AnalyzeAsync w iss = (w', p) \<longrightarrow> \<not> published w' p)
   \<and> (\<not> published w' p \<longrightarrow>
        GetPageRankScore w' p i = 0 \<and> GetBetweennessScore w' p i = 0
        \<and> GetEigenvectorScore w' p i = 0 \<and> GetHubScore w' p i = 0
        \<and> GetAuthorityScore w' p i = 0 \<and> GetCriticalPathScore w' p i = 0)"
  by (simp add: AnalyzeAsync_unpublished GetScore_unpublished GetPageRankScore_def
      GetBetweennessScore_def GetEigenvectorScore_def GetHubScore_def GetAuthorityScore_def
      GetCriticalPathScore_def)

theorem accessors_default_before_publish_witness:
  "AnalyzeAsync init_world cycle_AB = (fst (AnalyzeAsync init_world cycle_AB), 1)
   \<and> \<not> published (fst (AnalyzeAsync init_world cycle_AB)) 1
   \<and> GetPageRankScore (fst (AnalyzeAsync init_world cycle_AB)) 1 ''A'' = 0
   \<and> GetCriticalPathScore (fst (AnalyzeAsync init_world cycle_AB)) 1 ''A'' = 0"
proof -
  have a: "AnalyzeAsync init_world cycle_AB = (fst (AnalyzeAsync init_world cycle_AB), 1)"
    by (simp add: AnalyzeAsync_def init_world_def Let_def)
  show ?thesis
    using accessors_default_before_publish
      [of init_world cycle_AB "fst (AnalyzeAsync init_world cycle_AB)" 1 "''A''"] a
    by simp
qed

subsection \<open>Well-formed worlds\<close>


lemma wf_AnalyzeAsync: "wf_world w \<Longrightarrow> wf_world (fst (AnalyzeAsync w iss))"
  by (auto simp: wf_world_def AnalyzeAsync_def Let_def list_all_iff)

lemma wf_publish: "wf_world w \<Longrightarrow> wf_world (publish other hash w p)"
  by (auto simp: wf_world_def publish_def list_all_iff split: option.splits)


section \<open>Properties of the dependency traversals\<close>

lemma isBlocked_skips_nil:
  "isBlocked isB im deps = isBlocked isB im (filter (\<lambda>d. d \<noteq> None) deps)"
  by (induction deps) (auto split: option.splits)

lemma isBlocked_nil_entry: "isBlocked isB im (xs @ None # ys) = isBlocked isB im (xs @ ys)"
  by (induction xs) (auto split: option.splits)

text \<open>
  Claim C1.  The classification in \<open>NewModel\<close> passes over a \<open>nil\<close> entry and treats
  the other entries as if it were not there (the two lemmas above).  The \<open>ready\<close> filter
  of \<open>applyFilter\<close> does not: on an open issue whose dependency list holds a \<open>nil\<close>
  entry it dereferences the entry and panics.
\<close>

theorem applyFilter_ready_nil_dependency:
  "applyFilter failing_env init_world nil_dep_model = Inl NilPointerDereference"
  by (simp add: applyFilter_def nil_dep_model_def empty_model_def filter_include_def
      issue_with_deps_def failing_env_def lookup_nil_def)

section \<open>Properties of \<open>Update\<close>\<close>




lemma clearAttentionOverlay_keeps:
  "issues (clearAttentionOverlay m) = issues m"
  "issueMap (clearAttentionOverlay m) = issueMap m"
  "analyzer (clearAttentionOverlay m) = analyzer m"
  "analysis (clearAttentionOverlay m) = analysis m"
  "list (clearAttentionOverlay m) = list m"
  "countOpen (clearAttentionOverlay m) = countOpen m"
  "countReady (clearAttentionOverlay m) = countReady m"
  "countBlocked (clearAttentionOverlay m) = countBlocked m"
  "countClosed (clearAttentionOverlay m) = countClosed m"
  "beadsPath (clearAttentionOverlay m) = beadsPath m"
  "watcher (clearAttentionOverlay m) = watcher m"
  "timeTravelMode (clearAttentionOverlay m) = timeTravelMode m"
  "showAttentionView (clearAttentionOverlay m) = False"
  by (simp_all add: clearAttentionOverlay_def)

lemma leaveTimeTravel_keeps:
  "issues (leaveTimeTravel m) = issues m"
  "issueMap (leaveTimeTravel m) = issueMap m"
  "analyzer (leaveTimeTravel m) = analyzer m"
  "analysis (leaveTimeTravel m) = analysis m"
  "list (leaveTimeTravel m) = list m"
  "countOpen (leaveTimeTravel m) = countOpen m"
  "countReady (leaveTimeTravel m) = countReady m"
  "countBlocked (leaveTimeTravel m) = countBlocked m"
  "countClosed (leaveTimeTravel m) = countClosed m"
  "beadsPath (leaveTimeTravel m) = beadsPath m"
  "watcher (leaveTimeTravel m) = watcher m"
  "showAttentionView (leaveTimeTravel m) = showAttentionView m"
  "timeTravelMode (leaveTimeTravel m) = False"
  by (simp_all add: leaveTimeTravel_def)

lemma overlays_identity:
  "\<not> showAttentionView m \<Longrightarrow> \<not> timeTravelMode m \<Longrightarrow> leaveTimeTravel (clearAttentionOverlay m) = m"
  by (simp add: leaveTimeTravel_def clearAttentionOverlay_def)

text \<open>
  Claim C9, as amended.  When the loader fails on a file change, \<open>Update\<close> leaves the
  world, the issue list, the issue map, the analyzer, the analysis handle, the four counts
  and the list widget as they were, and sets the status message to the reload error.
  Before it loads, it has cleared the attention overlay and left time-travel mode; when
  neither was on, nothing but the two status fields changes.  The command returned
  re-arms the watcher when the model has one.
\<close>

theorem reload_failure_keeps_data:
  assumes "beadsPath m \<noteq> ''''" and "LoadIssuesFromFile env (beadsPath m) = Inl err"
  shows "Update env hash FileChangedMsg (w, m)
      = Inr (w, (leaveTimeTravel (clearAttentionOverlay m))
                  \<lparr>statusMsg := ''Reload error: '' @ err, statusIsError := True\<rparr>,
             tea_Batch (watchAgain m))
    \<and> issues (leaveTimeTravel (clearAttentionOverlay m)) = issues m
    \<and> issueMap (leaveTimeTravel (clearAttentionOverlay m)) = issueMap m
    \<and> analyzer (leaveTimeTravel (clearAttentionOverlay m)) = analyzer m
    \<and> analysis (leaveTimeTravel (clearAttentionOverlay m)) = analysis m
    \<and> countOpen (leaveTimeTravel (clearAttentionOverlay m)) = countOpen m
    \<and> countReady (leaveTimeTravel (clearAttentionOverlay m)) = countReady m
    \<and> countBlocked (leaveTimeTravel (clearAttentionOverlay m)) = countBlocked m
    \<and> countClosed (leaveTimeTravel (clearAttentionOverlay m)) = countClosed m
    \<and> list (leaveTimeTravel (clearAttentionOverlay m)) = list m
    \<and> (\<not> showAttentionView m \<and> \<not> timeTravelMode m \<longrightarrow>
          leaveTimeTravel (clearAttentionOverlay m) = m)
    \<and> (\<forall>wt. watcher m = Some wt \<longrightarrow> tea_Batch (watchAgain m) = Some (Batch [WatchFileCmd wt]))"
proof -
  have "Update env hash FileChangedMsg (w, m)
      = Inr (w, (leaveTimeTravel (clearAttentionOverlay m))
                  \<lparr>statusMsg := ''Reload error: '' @ err, statusIsError := True\<rparr>,
             tea_Batch (watchAgain m))"
    using assms
    by (simp add: Update_def FileChanged_def Let_def clearAttentionOverlay_keeps
        leaveTimeTravel_keeps watchAgain_def)
  moreover have "\<forall>wt. watcher m = Some wt \<longrightarrow> tea_Batch (watchAgain m) = Some (Batch [WatchFileCmd wt])"
    by (simp add: watchAgain_def tea_Batch_def List.map_filter_simps)
  ultimately show ?thesis
    by (simp add: clearAttentionOverlay_keeps leaveTimeTravel_keeps overlays_identity)
qed

lemma failing_env_load: "LoadIssuesFromFile failing_env p = Inl ''no such file''"
  by (simp add: failing_env_def)

theorem reload_failure_keeps_data_witness:
  "beadsPath time_travel_model \<noteq> ''''
   \<and> LoadIssuesFromFile failing_env (beadsPath time_travel_model) = Inl ''no such file''
   \<and> Update failing_env key_hash FileChangedMsg (init_world, time_travel_model)
      = Inr (init_world, (leaveTimeTravel (clearAttentionOverlay time_travel_model))
                  \<lparr>statusMsg := ''Reload error: no such file'', statusIsError := True\<rparr>,
             tea_Batch (watchAgain time_travel_model))
   \<and> list (leaveTimeTravel (clearAttentionOverlay time_travel_model)) = list time_travel_model"
proof -
  have b: "beadsPath time_travel_model \<noteq> ''''"
    by (simp add: time_travel_model_def empty_model_def)
  show ?thesis
    using reload_failure_keeps_data [OF b failing_env_load, of key_hash init_world] b
      failing_env_load
    by simp
qed

text \<open>
  Claim C9, as stated, fails for a model in time-travel mode without a watcher: the failed
  reload resets the time-travel fields, which are not status-message fields, and returns
  no command, so nothing is re-armed.
\<close>

theorem reload_failure_counterexample:
  "beadsPath time_travel_model \<noteq> ''''
   \<and> LoadIssuesFromFile failing_env (beadsPath time_travel_model) = Inl ''no such file''
   \<and> timeTravelMode time_travel_model
   \<and> \<not> timeTravelMode (fst (snd (projr
          (Update failing_env key_hash FileChangedMsg (init_world, time_travel_model)))))
   \<and> timeTravelSince time_travel_model
       \<noteq> timeTravelSince (fst (snd (projr
          (Update failing_env key_hash FileChangedMsg (init_world, time_travel_model)))))
   \<and> snd (snd (projr
          (Update failing_env key_hash FileChangedMsg (init_world, time_travel_model)))) = None"
  by (simp add: Update_def FileChanged_def Let_def time_travel_model_def empty_model_def
      failing_env_def clearAttentionOverlay_def leaveTimeTravel_def watchAgain_def tea_Batch_def
      List.map_filter_simps)

lemma applyRecipe_keeps:
  assumes "applyRecipe env r w m = Inr m'"
  shows "analysis m' = analysis m" "analyzer m' = analyzer m" "issues m' = issues m"
    "alerts m' = alerts m" "priorityHints m' = priorityHints m"
    "insightsPanel m' = insightsPanel m" "labelHealthCached m' = labelHealthCached m"
    "statusMsg m' = statusMsg m" "watcher m' = watcher m"
  using assms by (auto simp: applyRecipe_def split: sum.splits)

lemma updateSemanticIDs_keeps:
  "analysis (updateSemanticIDs its m) = analysis m"
  "analyzer (updateSemanticIDs its m) = analyzer m"
  "issues (updateSemanticIDs its m) = issues m"
  "alerts (updateSemanticIDs its m) = alerts m"
  "priorityHints (updateSemanticIDs its m) = priorityHints m"
  "insightsPanel (updateSemanticIDs its m) = insightsPanel m"
  "labelHealthCached (updateSemanticIDs its m) = labelHealthCached m"
  "list (updateSemanticIDs its m) = list m"
  "board (updateSemanticIDs its m) = board m"
  "graphView (updateSemanticIDs its m) = graphView m"
  "activeRecipe (updateSemanticIDs its m) = activeRecipe m"
  "watcher (updateSemanticIDs its m) = watcher m"
  by (simp_all add: updateSemanticIDs_def split: option.splits)

lemma applyFilter_keeps:
  assumes "applyFilter env w m = Inr m'"
  shows "analysis m' = analysis m" "analyzer m' = analyzer m" "issues m' = issues m"
    "alerts m' = alerts m" "priorityHints m' = priorityHints m"
    "insightsPanel m' = insightsPanel m" "labelHealthCached m' = labelHealthCached m"
  using assms
  by (auto simp: applyFilter_def Let_def updateViewportContent_def updateSemanticIDs_keeps
      split: sum.splits if_splits option.splits)

lemma reapplyView_keeps:
  assumes "reapplyView env w m = Inr m'"
  shows "analysis m' = analysis m" "analyzer m' = analyzer m" "issues m' = issues m"
    "alerts m' = alerts m" "priorityHints m' = priorityHints m"
    "insightsPanel m' = insightsPanel m" "labelHealthCached m' = labelHealthCached m"
  using assms applyRecipe_keeps [of env _ w m m'] applyFilter_keeps [of env w m m']
  by (auto simp: reapplyView_def split: option.splits)

lemma resortByMetric_keeps:
  "analysis (resortByMetric w m) = analysis m"
  "analyzer (resortByMetric w m) = analyzer m"
  "alerts (resortByMetric w m) = alerts m"
  "priorityHints (resortByMetric w m) = priorityHints m"
  "insightsPanel (resortByMetric w m) = insightsPanel m"
  "labelHealthCached (resortByMetric w m) = labelHealthCached m"
  by (simp_all add: resortByMetric_def Let_def split: option.splits)

lemma refreshLabelHealth_keeps:
  "analysis (refreshLabelHealth env w m) = analysis m"
  "analyzer (refreshLabelHealth env w m) = analyzer m"
  "issues (refreshLabelHealth env w m) = issues m"
  "alerts (refreshLabelHealth env w m) = alerts m"
  "priorityHints (refreshLabelHealth env w m) = priorityHints m"
  "insightsPanel (refreshLabelHealth env w m) = insightsPanel m"
  by (simp_all add: refreshLabelHealth_def Let_def)

lemma refreshAlerts_keeps:
  "analysis (refreshAlerts env w m) = analysis m"
  "analyzer (refreshAlerts env w m) = analyzer m"
  "issues (refreshAlerts env w m) = issues m"
  "priorityHints (refreshAlerts env w m) = priorityHints m"
  "insightsPanel (refreshAlerts env w m) = insightsPanel m"
  "alerts (refreshAlerts env w m) = fst (computeAlerts env w (issues m) (analysis m) (analyzer m))"
  by (simp_all add: refreshAlerts_def split: prod.splits)

lemma refreshPriorityHints_keeps:
  "analysis (refreshPriorityHints env w m) = analysis m"
  "analyzer (refreshPriorityHints env w m) = analyzer m"
  "issues (refreshPriorityHints env w m) = issues m"
  "insightsPanel (refreshPriorityHints env w m) = insightsPanel m"
  "priorityHints (refreshPriorityHints env w m)
     = map_of (rev (GenerateRecommendations env w (analyzer m)))"
  by (simp_all add: refreshPriorityHints_def)

lemma refreshTriage_keeps:
  "analysis (refreshTriage env m) = analysis m"
  "analyzer (refreshTriage env m) = analyzer m"
  "issues (refreshTriage env m) = issues m"
  "insightsPanel (refreshTriage env m)
     = insights_SetRecommendations env (ComputeTriage env (issues m))
         (insights_SetTopPicks env (ComputeTriage env (issues m)) (insightsPanel m))"
  by (simp_all add: refreshTriage_def Let_def)

lemma refreshInsights_keeps:
  "analysis (refreshInsights env w m) = analysis m"
  "analyzer (refreshInsights env w m) = analyzer m"
  "issues (refreshInsights env w m) = issues m"
  "insightsPanel (refreshInsights env w m)
     = insights_SetSize env (width m) (if height m - 1 < 5 then 5 else height m - 1)
         (NewInsightsModel env (GenerateInsights env w (analysis m) (length (issues m)))
            (issueMap m))"
  by (simp_all add: refreshInsights_def Let_def)

lemma forwardToList_keeps:
  assumes "forwardToList env msg cmds m = (m', cmd)"
  shows "analysis m' = analysis m" "analyzer m' = analyzer m"
    "alerts m' = alerts m" "priorityHints m' = priorityHints m"
    "insightsPanel m' = insightsPanel m" "labelHealthCached m' = labelHealthCached m"
  using assms by (auto simp: forwardToList_def split: if_splits prod.splits)

lemma Phase2Ready_refresh_result:
  assumes "Phase2Ready_refresh env w m = Inr m1"
  shows "analysis m1 = analysis m"
    and "alerts m1 = fst (computeAlerts env w (issues m) (analysis m) (analyzer m))"
    and "priorityHints m1 = map_of (rev (GenerateRecommendations env w (analyzer m)))"
    and "insightsPanel m1
      = insights_SetRecommendations env (ComputeTriage env (issues m))
         (insights_SetTopPicks env (ComputeTriage env (issues m))
           (insights_SetSize env (width m) (if height m - 1 < 5 then 5 else height m - 1)
             (NewInsightsModel env (GenerateInsights env w (analysis m) (length (issues m)))
                (issueMap m))))"
  using reapplyView_keeps [OF assms [unfolded Phase2Ready_refresh_def]]
  by (simp_all add: resortByMetric_keeps refreshLabelHealth_keeps refreshAlerts_keeps
      refreshPriorityHints_keeps refreshTriage_keeps refreshInsights_keeps)

text \<open>
  Claim C2.  A \<open>Phase2ReadyMsg\<close> whose \<open>Stats\<close> is not the model's current analysis is
  dropped: \<open>Update\<close> returns the world and the model as they are and no command.  Only
  the message of the current analysis refreshes the model: then the insights panel is
  rebuilt with the triage, the priority hints are regenerated and the alerts recomputed.
\<close>

theorem Phase2Ready_stale_ignored:
  "(stats \<noteq> analysis m \<longrightarrow> Update env hash (Phase2ReadyMsg stats) (w, m) = Inr (w, m, None))
   \<and> (stats = analysis m \<and> Update env hash (Phase2ReadyMsg stats) (w, m) = Inr (w', m', cmd) \<longrightarrow>
        w' = w \<and> analysis m' = analysis m
        \<and> insightsPanel m'
            = insights_SetRecommendations env (ComputeTriage env (issues m))
               (insights_SetTopPicks env (ComputeTriage env (issues m))
                 (insights_SetSize env (width m) (if height m - 1 < 5 then 5 else height m - 1)
                   (NewInsightsModel env
                      (GenerateInsights env w (analysis m) (length (issues m))) (issueMap m))))
        \<and> priorityHints m' = map_of (rev (GenerateRecommendations env w (analyzer m)))
        \<and> alerts m' = fst (computeAlerts env w (issues m) (analysis m) (analyzer m)))"
proof (intro conjI impI)
  assume "stats \<noteq> analysis m"
  then show "Update env hash (Phase2ReadyMsg stats) (w, m) = Inr (w, m, None)"
    by (simp add: Update_def)
next
  assume a: "stats = analysis m \<and> Update env hash (Phase2ReadyMsg stats) (w, m) = Inr (w', m', cmd)"
  then obtain m1 where r: "Phase2Ready_refresh env w m = Inr m1"
    and f: "forwardToList env (Phase2ReadyMsg stats) [] m1 = (m', cmd)" and w: "w' = w"
    by (auto simp: Update_def split: sum.splits prod.splits)
  show "w' = w" by (rule w)
  show "analysis m' = analysis m"
    using forwardToList_keeps(1) [OF f] Phase2Ready_refresh_result(1) [OF r] by simp
  show "insightsPanel m'
            = insights_SetRecommendations env (ComputeTriage env (issues m))
               (insights_SetTopPicks env (ComputeTriage env (issues m))
                 (insights_SetSize env (width m) (if height m - 1 < 5 then 5 else height m - 1)
                   (NewInsightsModel env
                      (GenerateInsights env w (analysis m) (length (issues m))) (issueMap m))))"
    using forwardToList_keeps(5) [OF f] Phase2Ready_refresh_result(4) [OF r] by simp
  show "priorityHints m' = map_of (rev (GenerateRecommendations env w (analyzer m)))"
    using forwardToList_keeps(4) [OF f] Phase2Ready_refresh_result(3) [OF r] by simp
  show "alerts m' = fst (computeAlerts env w (issues m) (analysis m) (analyzer m))"
    using forwardToList_keeps(3) [OF f] Phase2Ready_refresh_result(2) [OF r] by simp
qed

lemma fresh_Phase2Ready_runs:
  "Update failing_env key_hash (Phase2ReadyMsg 1)
       (init_world, empty_model\<lparr>labelHealthCached := True\<rparr>)
     = Inr (init_world, empty_model, None)"
  by (simp add: Update_def Phase2Ready_refresh_def reapplyView_def applyFilter_def
      resortByMetric_def refreshLabelHealth_def refreshAlerts_def refreshPriorityHints_def
      refreshTriage_def refreshInsights_def forwardToList_def updateViewportContent_def
      updateSemanticIDs_def list_SetItems_def list_SelectedItem_def tea_Batch_def
      List.map_filter_simps empty_model_def failing_env_def Let_def)

theorem Phase2Ready_stale_ignored_witness:
  "2 \<noteq> analysis empty_model
   \<and> Update failing_env key_hash (Phase2ReadyMsg 2) (init_world, empty_model)
       = Inr (init_world, empty_model, None)
   \<and> 1 = analysis (empty_model\<lparr>labelHealthCached := True\<rparr>)
   \<and> Update failing_env key_hash (Phase2ReadyMsg 1)
         (init_world, empty_model\<lparr>labelHealthCached := True\<rparr>)
       = Inr (init_world, empty_model, None)
   \<and> priorityHints empty_model
       = map_of (rev (GenerateRecommendations failing_env init_world
                        (analyzer (empty_model\<lparr>labelHealthCached := True\<rparr>))))"
proof -
  have s: "2 \<noteq> analysis empty_model"
    and c: "1 = analysis (empty_model\<lparr>labelHealthCached := True\<rparr>)"
    by (simp_all add: empty_model_def)
  show ?thesis
    using Phase2Ready_stale_ignored [of 2 empty_model failing_env key_hash init_world]
      Phase2Ready_stale_ignored [of 1 "empty_model\<lparr>labelHealthCached := True\<rparr>" failing_env
        key_hash init_world init_world empty_model None]
      s c fresh_Phase2Ready_runs
    by simp
qed





















end
